theory Spec2Isabelle
  imports Complex_Main "HOL-Library.Sublist"
begin

section \<open>JavaScript values and strings\<close>

text \<open>
  The storefront handles image fields of unknown shape (\<^verbatim>\<open>any\<close>): absent, a string,
  or an array of anything. Such values are modelled by a datatype of JavaScript values.
  Numbers are exact rationals (no NaN, no infinities, no binary rounding); strings are
  lists of 8-bit characters.
\<close>

datatype jsval =
    JUndefined
  | JNull
  | JBool bool
  | JNum rat
  | JStr string
  | JArr "jsval list"
  | JObj "(string \<times> jsval) list"

text \<open>Truthiness, as tested by \<^verbatim>\<open>!x\<close> and \<^verbatim>\<open>x && ...\<close>.\<close>

fun truthy :: "jsval \<Rightarrow> bool" where
  "truthy JUndefined = False"
| "truthy JNull = False"
| "truthy (JBool b) = b"
| "truthy (JNum n) = (n \<noteq> 0)"
| "truthy (JStr s) = (s \<noteq> [])"
| "truthy (JArr _) = True"
| "truthy (JObj _) = True"

text \<open>
  The white space stripped by \<^verbatim>\<open>trim()\<close> and matched by \<^verbatim>\<open>\s\<close>, within ASCII. The
  no-break space and the other Unicode spaces that JavaScript treats the same way are
  not modelled; the general theorems below do not depend on which characters are white
  space, only the worked examples evaluate it.
\<close>

definition isWhiteSpace :: "char \<Rightarrow> bool" where
  "isWhiteSpace c \<longleftrightarrow>
     c = CHR 0x09 \<or> c = CHR 0x0A \<or> c = CHR 0x0B \<or> c = CHR 0x0C \<or> c = CHR 0x0D \<or> c = CHR '' ''"

definition trim :: "string \<Rightarrow> string" where
  "trim s = rev (dropWhile isWhiteSpace (rev (dropWhile isWhiteSpace s)))"

definition toLowerCase_char :: "char \<Rightarrow> char" where
  "toLowerCase_char c =
     (case map_of (zip ''ABCDEFGHIJKLMNOPQRSTUVWXYZ'' ''abcdefghijklmnopqrstuvwxyz'') c of
        Some l \<Rightarrow> l
      | None \<Rightarrow> c)"

definition toLowerCase :: "string \<Rightarrow> string" where
  "toLowerCase s = map toLowerCase_char s"

definition endsWith :: "string \<Rightarrow> string \<Rightarrow> bool" where
  "endsWith s ext \<longleftrightarrow> length ext \<le> length s \<and> drop (length s - length ext) s = ext"

text \<open>
  \<^verbatim>\<open>JSON.parse\<close> is a parameter of every function that calls it: \<open>None\<close> stands for
  the \<^verbatim>\<open>SyntaxError\<close> it throws, \<open>Some v\<close> for the parsed value.
\<close>

type_synonym json_parse = "string \<Rightarrow> jsval option"

section \<open>The strict cart-display normalizer (\<^verbatim>\<open>getFirstImageUrl\<close>)\<close>

definition validImageExts :: "string list" where
  "validImageExts =
     [''.jpg'', ''.jpeg'', ''.png'', ''.gif'', ''.webp'', ''.bmp'', ''.svg'', ''.avif'']"

definition isValidImage :: "jsval \<Rightarrow> bool" where
  "isValidImage url =
     (case url of
        JStr s \<Rightarrow>
          if s = [] then False
          else (let lower = toLowerCase s in list_ex (\<lambda>ext. endsWith lower ext) validImageExts)
      | _ \<Rightarrow> False)"

text \<open>The list \<^verbatim>\<open>urls\<close> built from the argument before filtering.\<close>

definition imageUrls :: "json_parse \<Rightarrow> jsval \<Rightarrow> jsval list" where
  "imageUrls parse imageData =
     (case imageData of
        JArr xs \<Rightarrow> xs
      | JStr s \<Rightarrow>
          (case parse s of
             Some (JArr parsed) \<Rightarrow> parsed
           | Some _ \<Rightarrow> [imageData]
           | None \<Rightarrow> [imageData])
      | _ \<Rightarrow> [])"

definition getFirstImageUrl :: "json_parse \<Rightarrow> jsval \<Rightarrow> jsval option" where
  "getFirstImageUrl parse imageData =
     (if \<not> truthy imageData then None
      else
        (let urls = imageUrls parse imageData;
             validImages = filter isValidImage urls
         in if length validImages > 0 then Some (validImages ! 0) else None))"

text \<open>
  The entries of an image field as the specification lists them: nothing for an absent
  field, the members of a native array, the members of a JSON-encoded array, and the
  string itself for any other string.
\<close>

definition entries_spec :: "json_parse \<Rightarrow> jsval \<Rightarrow> jsval list" where
  "entries_spec parse v =
     (case v of
        JArr xs \<Rightarrow> xs
      | JStr s \<Rightarrow> (case parse s of Some (JArr xs) \<Rightarrow> xs | _ \<Rightarrow> [JStr s])
      | _ \<Rightarrow> [])"

definition allowed_image_url :: "string \<Rightarrow> bool" where
  "allowed_image_url u \<longleftrightarrow> (\<exists>ext \<in> set validImageExts. suffix ext (toLowerCase u))"

section \<open>The catalog normalizer\<close>

text \<open>
  A raw product row as far as the normalizer reads it. \<^verbatim>\<open>images\<close> has any shape;
  \<^verbatim>\<open>image_url\<close> is a text column: a string or null.
\<close>

record raw_product =
  images :: jsval
  image_url :: "string option"

text \<open>The filter predicate \<^verbatim>\<open>img && typeof img === 'string' && img.trim()\<close>.\<close>

definition keepImage :: "jsval \<Rightarrow> bool" where
  "keepImage img =
     (truthy img \<and> (case img of JStr s \<Rightarrow> truthy (JStr (trim s)) | _ \<Rightarrow> False))"

text \<open>The fallback to \<^verbatim>\<open>image_url\<close> and the final \<^verbatim>\<open>images.length > 0\<close> test.\<close>

definition imageUrlFallback :: "raw_product \<Rightarrow> jsval list option \<Rightarrow> jsval list option" where
  "imageUrlFallback p imgs =
     (let noImages = (case imgs of None \<Rightarrow> True | Some xs \<Rightarrow> length xs = 0);
          imgs1 =
            (case image_url p of
               Some u \<Rightarrow> if noImages \<and> u \<noteq> [] \<and> trim u \<noteq> [] then Some [JStr u] else imgs
             | None \<Rightarrow> imgs)
      in case imgs1 of
           None \<Rightarrow> None
         | Some xs \<Rightarrow> if length xs > 0 then Some xs else None)"

text \<open>
  The predicate \<^verbatim>\<open>img && img.trim()\<close> that \<^verbatim>\<open>fetchProducts\<close> applies to the one-element
  list \<^verbatim>\<open>[p.images]\<close>, whose element is a string.
\<close>

definition keepString :: "jsval \<Rightarrow> bool" where
  "keepString img =
     (truthy img \<and> (case img of JStr s \<Rightarrow> truthy (JStr (trim s)) | _ \<Rightarrow> False))"

text \<open>The image parsing of \<^verbatim>\<open>fetchProducts\<close> (catalog page).\<close>

definition parseImages_home :: "json_parse \<Rightarrow> raw_product \<Rightarrow> jsval list option" where
  "parseImages_home parse p =
     (let imgs =
        (if images p \<noteq> JUndefined \<and> images p \<noteq> JNull then
           (case images p of
              JStr s \<Rightarrow>
                (case parse s of
                   Some (JArr parsed) \<Rightarrow> Some (filter keepImage parsed)
                 | Some _ \<Rightarrow> Some (filter keepString [JStr s])
                 | None \<Rightarrow> if s \<noteq> [] \<and> trim s \<noteq> [] then Some [JStr s] else None)
            | JArr xs \<Rightarrow> Some (filter keepImage xs)
            | _ \<Rightarrow> None)
         else None)
      in imageUrlFallback p imgs)"

text \<open>The image parsing of \<^verbatim>\<open>fetchProduct\<close> (product details page).\<close>

definition parseImages_details :: "json_parse \<Rightarrow> raw_product \<Rightarrow> jsval list option" where
  "parseImages_details parse p =
     (let imgs =
        (if images p \<noteq> JUndefined \<and> images p \<noteq> JNull then
           (case images p of
              JStr s \<Rightarrow>
                (case parse s of
                   Some (JArr parsed) \<Rightarrow> Some (filter keepImage parsed)
                 | Some _ \<Rightarrow> if s \<noteq> [] \<and> trim s \<noteq> [] then Some [JStr s] else None
                 | None \<Rightarrow> if s \<noteq> [] \<and> trim s \<noteq> [] then Some [JStr s] else None)
            | JArr xs \<Rightarrow> Some (filter keepImage xs)
            | _ \<Rightarrow> None)
         else None)
      in imageUrlFallback p imgs)"

text \<open>
  The normalizer as the specification words it. \<open>nonblank_string\<close> is a non-empty,
  non-blank string entry. The legacy field is used when \<open>legacy_ok\<close> accepts it; the
  specification's wording is "present and non-empty".
\<close>

definition nonblank_string :: "jsval \<Rightarrow> bool" where
  "nonblank_string v \<longleftrightarrow> (case v of JStr s \<Rightarrow> \<exists>c \<in> set s. \<not> isWhiteSpace c | _ \<Rightarrow> False)"

definition normalize_spec ::
  "(string \<Rightarrow> bool) \<Rightarrow> json_parse \<Rightarrow> raw_product \<Rightarrow> jsval list option" where
  "normalize_spec legacy_ok parse p =
     (let filtered = filter nonblank_string (entries_spec parse (images p))
      in if filtered \<noteq> [] then Some filtered
         else (case image_url p of
                 Some u \<Rightarrow> if legacy_ok u then Some [JStr u] else None
               | None \<Rightarrow> None))"

definition nonempty_str :: "string \<Rightarrow> bool" where
  "nonempty_str u \<longleftrightarrow> u \<noteq> []"

definition nonblank_str :: "string \<Rightarrow> bool" where
  "nonblank_str u \<longleftrightarrow> (\<exists>c \<in> set u. \<not> isWhiteSpace c)"

text \<open>A parser that rejects every text, as \<^verbatim>\<open>JSON.parse\<close> rejects a plain URL.\<close>

definition noJson :: json_parse where
  "noJson s = None"

text \<open>The list held by an optional list, empty when there is none.\<close>

definition listOf :: "'a list option \<Rightarrow> 'a list" where
  "listOf imgs = (case imgs of None \<Rightarrow> [] | Some xs \<Rightarrow> xs)"

section \<open>Pagination\<close>

definition ITEMS_PER_PAGE :: int where
  "ITEMS_PER_PAGE = 12"

text \<open>\<^verbatim>\<open>Array.prototype.slice(start, end)\<close> with its treatment of negative and large indices.\<close>

definition slice :: "'a list \<Rightarrow> int \<Rightarrow> int \<Rightarrow> 'a list" where
  "slice xs startIndex endIndex =
     (let len = int (length xs);
          k = (if startIndex < 0 then max (len + startIndex) 0 else min startIndex len);
          final = (if endIndex < 0 then max (len + endIndex) 0 else min endIndex len)
      in take (nat (final - k)) (drop (nat k) xs))"

definition paginatedProducts :: "'a list \<Rightarrow> int \<Rightarrow> 'a list" where
  "paginatedProducts sortedProducts currentPage =
     (let startIndex = (currentPage - 1) * ITEMS_PER_PAGE;
          endIndex = startIndex + ITEMS_PER_PAGE
      in slice sortedProducts startIndex endIndex)"

definition totalPages :: "'a list \<Rightarrow> int" where
  "totalPages sortedProducts =
     \<lceil>(of_nat (length sortedProducts) :: rat) / of_int ITEMS_PER_PAGE\<rceil>"

section \<open>The analytics emitter (\<^verbatim>\<open>fbqTrack\<close>)\<close>

text \<open>
  The browser as \<^verbatim>\<open>fbqTrack\<close> sees it: the global \<^verbatim>\<open>window.fbq\<close>, absent until the
  tracking library has loaded, and the console. A call of the tracking function either
  returns (\<open>None\<close>) or throws (\<open>Some e\<close>); the calls made are recorded in \<open>tracked\<close>.
\<close>

record ('d, 'e) browser =
  fbq :: "(string \<Rightarrow> string \<Rightarrow> 'd \<Rightarrow> 'e option) option"
  tracked :: "(string \<times> string \<times> 'd) list"
  warnings :: "(string \<times> 'd) list"

text \<open>The result is \<open>Inl e\<close> when the call ends by throwing \<open>e\<close>, \<open>Inr ()\<close> when it returns.\<close>

definition fbqTrack ::
  "('d, 'e) browser \<Rightarrow> string \<Rightarrow> 'd \<Rightarrow> ('e + unit) \<times> ('d, 'e) browser" where
  "fbqTrack w event data =
     (case fbq w of
        Some f \<Rightarrow>
          (let w' = w\<lparr>tracked := tracked w @ [(''track'', event, data)]\<rparr>
           in case f ''track'' event data of
                Some e \<Rightarrow> (Inl e, w')
              | None \<Rightarrow> (Inr (), w'))
      | None \<Rightarrow> (Inr (), w\<lparr>warnings := warnings w @ [(event, data)]\<rparr>))"

text \<open>A tracking function whose transport fails on every call.\<close>

definition throwingFbq :: "string \<Rightarrow> string \<Rightarrow> 'd \<Rightarrow> string option" where
  "throwingFbq command event data = Some ''transport error''"

text \<open>A tracking function that returns from every call.\<close>

definition quietFbq :: "string \<Rightarrow> string \<Rightarrow> 'd \<Rightarrow> string option" where
  "quietFbq command event data = None"

section \<open>Checkout: cart, form and backend\<close>

record cart_item =
  ci_id :: string
  ci_name :: string
  ci_price :: rat
  ci_quantity :: int
  ci_image_url :: jsval

text \<open>A row of the live fetch \<^verbatim>\<open>select('id, name, stock, price')\<close>.\<close>

record product_row =
  p_id :: string
  p_name :: string
  p_stock :: int
  p_price :: rat

datatype location = Inside_dhaka | Outside_dhaka

record form_data =
  f_name :: string
  f_phone :: string
  f_address :: string
  f_location :: location

record delivery_charges =
  inside_dhaka :: rat
  outside_dhaka :: rat

record order_row =
  o_id :: string
  customer_name :: string
  phone :: string
  address :: string
  location_type :: location
  total_amount :: rat
  status :: string

record order_item =
  order_id :: string
  product_id :: string
  quantity :: int
  price :: rat

text \<open>
  A reply of the backend client, \<^verbatim>\<open>{ data, error }\<close>: an error with its message
  (possibly empty), or the data.
\<close>

datatype 'a reply = Failure string | Success 'a

text \<open>
  The replies the backend gives during one submission: the product rows (or null), the
  inserted order's \<^verbatim>\<open>{ id }\<close> (or null), the result of the order-items insert, and the
  result of the compensating delete, should the page send one.
\<close>

record replies =
  products_reply :: "product_row list option reply"
  order_reply :: "string option reply"
  items_reply :: "unit reply"
  delete_reply :: "unit reply"

text \<open>
  The cart page together with the two backend tables it writes. An order insert that
  replies with data stores the row under the id of the reply (empty when the reply has
  none); a failed insert stores nothing; a delete that replies without error removes
  the rows with the given id, and a failed delete removes nothing.
\<close>

record world =
  items :: "cart_item list"
  formData :: form_data
  deliveryCharges :: delivery_charges
  loading :: bool
  orderConfirmed :: bool
  orderId :: "string option"
  orders :: "order_row list"
  order_items :: "order_item list"

text \<open>The errors thrown inside the \<^verbatim>\<open>try\<close> block, with the backend's message where there is one.\<close>

datatype thrown =
    ProductsCheckError string
  | OrderCreateError string
  | OrderIdMissing
  | NoValidItems
  | OrderItemsError string

text \<open>What the user is told (the toast), with the data the message is built from.\<close>

datatype outcome =
    CartEmpty
  | InvalidCartLine
  | NameRequired
  | PhoneRequired
  | PhoneInvalid
  | AddressRequired
  | ProductsUnavailable "string list"
  | OutOfStock "(string \<times> int) list"
  | OrderFailed thrown
  | OrderPlaced string

subsection \<open>The Cart Store\<close>

text \<open>
  Modelled from the spec: \<^verbatim>\<open>removeItem\<close> of the Cart Store (\<^verbatim>\<open>CartContext\<close>, which is
  not among the sources) removes the line of the given product id; each mutation is
  immediately visible to the next.
\<close>

definition removeItem :: "string \<Rightarrow> cart_item list \<Rightarrow> cart_item list" where
  "removeItem productId its = filter (\<lambda>item. ci_id item \<noteq> productId) its"

text \<open>Modelled from the spec: \<^verbatim>\<open>clearCart\<close> of the Cart Store erases its content.\<close>

definition clearCart :: "cart_item list \<Rightarrow> cart_item list" where
  "clearCart its = []"

text \<open>
  Modelled from the spec: the derived \<^verbatim>\<open>totalPrice\<close> of the Cart Store is the sum of
  price times quantity over the lines.
\<close>

definition totalPrice :: "cart_item list \<Rightarrow> rat" where
  "totalPrice its = sum_list (map (\<lambda>item. ci_price item * of_int (ci_quantity item)) its)"

subsection \<open>Amounts\<close>

text \<open>
  \<^verbatim>\<open>parseFloat(x.toFixed(2))\<close>: below \<open>10^21\<close> in magnitude the nearest multiple of
  \<open>1/100\<close>, a tie going away from zero; from \<open>10^21\<close> on \<^verbatim>\<open>toFixed\<close> prints the number
  itself.
\<close>

definition toFixed2 :: "rat \<Rightarrow> rat" where
  "toFixed2 x =
     (if 10 ^ 21 \<le> \<bar>x\<bar> then x
      else if x < 0 then - (of_int \<lfloor>(- x) * 100 + 1 / 2\<rfloor> / 100)
      else of_int \<lfloor>x * 100 + 1 / 2\<rfloor> / 100)"

definition deliveryCharge :: "world \<Rightarrow> rat" where
  "deliveryCharge w =
     (if f_location (formData w) = Inside_dhaka
      then inside_dhaka (deliveryCharges w)
      else outside_dhaka (deliveryCharges w))"

text \<open>
  The addition of two numbers by the runtime, which rounds the exact sum to a double, is
  a parameter of every function that adds: what is proved holds for any addition.
\<close>

type_synonym number_plus = "rat \<Rightarrow> rat \<Rightarrow> rat"

definition finalTotal :: "number_plus \<Rightarrow> world \<Rightarrow> rat" where
  "finalTotal jsPlus w = jsPlus (totalPrice (items w)) (deliveryCharge w)"

text \<open>Addition without rounding: the runtime's sum whenever a double holds it exactly.\<close>

definition exactPlus :: number_plus where
  "exactPlus a b = a + b"

subsection \<open>\<^verbatim>\<open>handleSubmit\<close>\<close>

text \<open>The checks on the cart before anything is fetched.\<close>

definition validateCart :: "cart_item list \<Rightarrow> outcome option" where
  "validateCart its =
     (if length its = 0 then Some CartEmpty
      else if list_ex (\<lambda>item. ci_id item = [] \<or> ci_name item = []
                          \<or> ci_price item \<le> 0 \<or> ci_quantity item \<le> 0) its
      then Some InvalidCartLine
      else None)"

text \<open>The pattern \<^verbatim>\<open>/^[0-9+\-\s()]+$/\<close>.\<close>

definition phoneRegex_test :: "string \<Rightarrow> bool" where
  "phoneRegex_test s \<longleftrightarrow>
     s \<noteq> [] \<and> list_all (\<lambda>c. c \<in> set ''0123456789+-()'' \<or> isWhiteSpace c) s"

definition validateForm :: "form_data \<Rightarrow> outcome option" where
  "validateForm fd =
     (if f_name fd = [] \<or> trim (f_name fd) = [] then Some NameRequired
      else if f_phone fd = [] \<or> trim (f_phone fd) = [] then Some PhoneRequired
      else if \<not> phoneRegex_test (trim (f_phone fd)) then Some PhoneInvalid
      else if f_address fd = [] \<or> trim (f_address fd) = [] then Some AddressRequired
      else None)"

definition missingItems :: "product_row list option \<Rightarrow> cart_item list \<Rightarrow> cart_item list" where
  "missingItems existingProducts its =
     (let existingIds = set (case existingProducts of Some ps \<Rightarrow> map p_id ps | None \<Rightarrow> [])
      in filter (\<lambda>item. ci_id item \<notin> existingIds) its)"

text \<open>The test that ends the submission with the missing lines removed from the cart.\<close>

definition productsUnavailable :: "product_row list option \<Rightarrow> cart_item list \<Rightarrow> bool" where
  "productsUnavailable existingProducts its \<longleftrightarrow>
     (case existingProducts of None \<Rightarrow> True | Some ps \<Rightarrow> length ps \<noteq> length its)
     \<and> length (missingItems existingProducts its) > 0"

definition findProduct :: "product_row list option \<Rightarrow> cart_item \<Rightarrow> product_row option" where
  "findProduct existingProducts item =
     (case existingProducts of
        Some ps \<Rightarrow> List.find (\<lambda>p. p_id p = ci_id item) ps
      | None \<Rightarrow> None)"

text \<open>One entry, product name and live stock, for each line whose live stock is short.\<close>

fun outOfStockItems :: "product_row list option \<Rightarrow> cart_item list \<Rightarrow> (string \<times> int) list" where
  "outOfStockItems existingProducts [] = []"
| "outOfStockItems existingProducts (item # its) =
     (case findProduct existingProducts item of
        Some product \<Rightarrow>
          if p_stock product < ci_quantity item
          then (p_name product, p_stock product) # outOfStockItems existingProducts its
          else outOfStockItems existingProducts its
      | None \<Rightarrow> outOfStockItems existingProducts its)"

definition orderItems ::
  "string \<Rightarrow> product_row list option \<Rightarrow> cart_item list \<Rightarrow> order_item list" where
  "orderItems oid existingProducts its =
     map (\<lambda>item. \<lparr>order_id = oid, product_id = ci_id item, quantity = ci_quantity item,
                  price = toFixed2 (ci_price item)\<rparr>)
       (filter (\<lambda>item. case existingProducts of
                          Some ps \<Rightarrow> list_ex (\<lambda>p. p_id p = ci_id item) ps
                        | None \<Rightarrow> False) its)"

definition newOrder :: "number_plus \<Rightarrow> world \<Rightarrow> string \<Rightarrow> order_row" where
  "newOrder jsPlus w oid =
     \<lparr>o_id = oid,
      customer_name = trim (f_name (formData w)),
      phone = trim (f_phone (formData w)),
      address = trim (f_address (formData w)),
      location_type = f_location (formData w),
      total_amount = toFixed2 (finalTotal jsPlus w),
      status = ''pending''\<rparr>"

definition deleteOrder :: "string \<Rightarrow> order_row list \<Rightarrow> order_row list" where
  "deleteOrder oid rows = filter (\<lambda>r. o_id r \<noteq> oid) rows"

text \<open>
  The compensating delete \<^verbatim>\<open>delete().eq('id', orderId)\<close> as the backend carries it out. The
  page awaits the request and does not read its result.
\<close>

definition compensate :: "replies \<Rightarrow> string \<Rightarrow> order_row list \<Rightarrow> order_row list" where
  "compensate env oid rows =
     (case delete_reply env of
        Success _ \<Rightarrow> deleteOrder oid rows
      | Failure msg \<Rightarrow> rows)"

text \<open>The part of the \<^verbatim>\<open>try\<close> block that follows a successful order insert.\<close>

definition insertItems :: "replies \<Rightarrow> world \<Rightarrow> product_row list option \<Rightarrow> string \<Rightarrow> outcome \<times> world" where
  "insertItems env w existingProducts oid =
     (let rows = orderItems oid existingProducts (items w)
      in if length rows = 0
         then (OrderFailed NoValidItems,
               w\<lparr>orders := compensate env oid (orders w), loading := False\<rparr>)
         else (case items_reply env of
                 Failure msg \<Rightarrow>
                   (OrderFailed (OrderItemsError msg),
                    w\<lparr>orders := compensate env oid (orders w), loading := False\<rparr>)
               | Success _ \<Rightarrow>
                   (OrderPlaced oid,
                    w\<lparr>order_items := order_items w @ rows,
                      orderId := Some oid,
                      orderConfirmed := True,
                      items := clearCart (items w),
                      loading := False\<rparr>)))"

text \<open>The order insert and what follows it.\<close>

definition insertOrder ::
  "number_plus \<Rightarrow> replies \<Rightarrow> world \<Rightarrow> product_row list option \<Rightarrow> outcome \<times> world" where
  "insertOrder jsPlus env w existingProducts =
     (case order_reply env of
        Failure msg \<Rightarrow> (OrderFailed (OrderCreateError msg), w\<lparr>loading := False\<rparr>)
      | Success orderData \<Rightarrow>
          (case orderData of
             None \<Rightarrow>
               (OrderFailed OrderIdMissing,
                w\<lparr>orders := orders w @ [newOrder jsPlus w []], loading := False\<rparr>)
           | Some oid \<Rightarrow>
               if oid = []
               then (OrderFailed OrderIdMissing,
                     w\<lparr>orders := orders w @ [newOrder jsPlus w oid], loading := False\<rparr>)
               else insertItems env (w\<lparr>orders := orders w @ [newOrder jsPlus w oid]\<rparr>)
                      existingProducts oid))"

text \<open>The \<^verbatim>\<open>try\<close> block: fetch, availability, stock, then the inserts.\<close>

definition reconcile :: "number_plus \<Rightarrow> replies \<Rightarrow> world \<Rightarrow> outcome \<times> world" where
  "reconcile jsPlus env w =
     (case products_reply env of
        Failure msg \<Rightarrow> (OrderFailed (ProductsCheckError msg), w\<lparr>loading := False\<rparr>)
      | Success existingProducts \<Rightarrow>
          if productsUnavailable existingProducts (items w)
          then (let missing = missingItems existingProducts (items w)
                in (ProductsUnavailable (map ci_name missing),
                    w\<lparr>items := foldl (\<lambda>its item. removeItem (ci_id item) its) (items w) missing,
                      loading := False\<rparr>))
          else (let outOfStock = outOfStockItems existingProducts (items w)
                in if length outOfStock > 0
                   then (OutOfStock outOfStock, w\<lparr>loading := False\<rparr>)
                   else insertOrder jsPlus env w existingProducts))"

definition handleSubmit :: "number_plus \<Rightarrow> replies \<Rightarrow> world \<Rightarrow> outcome \<times> world" where
  "handleSubmit jsPlus env w =
     (case validateCart (items w) of
        Some rejection \<Rightarrow> (rejection, w)
      | None \<Rightarrow>
          (case validateForm (formData w) of
             Some rejection \<Rightarrow> (rejection, w)
           | None \<Rightarrow> reconcile jsPlus env w))"

subsection \<open>What the page shows\<close>

text \<open>
  The component returns the empty-cart view whenever the cart has no line, before it
  comes to the cart view. Only the cart view holds the confirmation dialog, which is
  open while \<^verbatim>\<open>orderConfirmed\<close> is set and then prints \<^verbatim>\<open>orderId\<close>.
\<close>

datatype view = EmptyCart | CartWithDialog bool "string option"

definition Cart :: "world \<Rightarrow> view" where
  "Cart w =
     (if length (items w) = 0 then EmptyCart
      else CartWithDialog (orderConfirmed w) (orderId w))"

text \<open>The order id that a view prints.\<close>

definition shownOrderId :: "view \<Rightarrow> string option" where
  "shownOrderId v =
     (case v of
        EmptyCart \<Rightarrow> None
      | CartWithDialog opened oid \<Rightarrow> if opened then oid else None)"

subsection \<open>The conditions the specification names\<close>

text \<open>
  What the query \<^verbatim>\<open>.in('id', productIds)\<close> on a table keyed by \<^verbatim>\<open>id\<close> can return:
  rows with pairwise different ids, each one of the requested ids.
\<close>

definition answersQuery :: "product_row list \<Rightarrow> cart_item list \<Rightarrow> bool" where
  "answersQuery ps its \<longleftrightarrow>
     distinct (map p_id ps) \<and> set (map p_id ps) \<subseteq> set (map ci_id its)"

text \<open>Validation reaches the stock check: cart and form pass, every cart id was fetched.\<close>

definition reachesStockCheck :: "replies \<Rightarrow> world \<Rightarrow> product_row list \<Rightarrow> bool" where
  "reachesStockCheck env w ps \<longleftrightarrow>
     validateCart (items w) = None \<and> validateForm (formData w) = None
     \<and> products_reply env = Success (Some ps)
     \<and> (\<forall>item \<in> set (items w). ci_id item \<in> set (map p_id ps))"

text \<open>A line is short when a fetched row of its product has less stock than it asks for.\<close>

definition shortLine :: "product_row list \<Rightarrow> cart_item \<Rightarrow> bool" where
  "shortLine ps item \<longleftrightarrow> (\<exists>p \<in> set ps. p_id p = ci_id item \<and> p_stock p < ci_quantity item)"

definition passesValidation :: "replies \<Rightarrow> world \<Rightarrow> product_row list \<Rightarrow> bool" where
  "passesValidation env w ps \<longleftrightarrow>
     reachesStockCheck env w ps \<and> (\<forall>item \<in> set (items w). \<not> shortLine ps item)"

text \<open>The reply to the product query is well formed: null, or rows that answer the query.\<close>

definition replyAnswersQuery :: "product_row list option \<Rightarrow> cart_item list \<Rightarrow> bool" where
  "replyAnswersQuery existingProducts its \<longleftrightarrow>
     (case existingProducts of None \<Rightarrow> True | Some ps \<Rightarrow> answersQuery ps its)"

text \<open>The entries, product name and live stock, of the lines that are short.\<close>

definition shortLines :: "product_row list \<Rightarrow> cart_item list \<Rightarrow> (string \<times> int) list" where
  "shortLines ps its =
     concat (map (\<lambda>item. map (\<lambda>p. (p_name p, p_stock p))
                           (filter (\<lambda>p. p_id p = ci_id item \<and> p_stock p < ci_quantity item) ps))
               its)"

text \<open>
  The submission gets as far as the order insert: cart and form pass, the products were
  fetched, no line was found unavailable and none out of stock.
\<close>

definition reachesOrderInsert :: "replies \<Rightarrow> world \<Rightarrow> product_row list option \<Rightarrow> bool" where
  "reachesOrderInsert env w existingProducts \<longleftrightarrow>
     validateCart (items w) = None \<and> validateForm (formData w) = None
     \<and> products_reply env = Success existingProducts
     \<and> \<not> productsUnavailable existingProducts (items w)
     \<and> outOfStockItems existingProducts (items w) = []"

subsection \<open>A sample cart page\<close>

definition lineA :: cart_item where
  "lineA = \<lparr>ci_id = ''A'', ci_name = ''Phone'', ci_price = 1999 / 100, ci_quantity = 3,
            ci_image_url = JNull\<rparr>"

definition lineB :: cart_item where
  "lineB = \<lparr>ci_id = ''B'', ci_name = ''Cable'', ci_price = 5, ci_quantity = 3,
            ci_image_url = JNull\<rparr>"

definition rowA :: product_row where
  "rowA = \<lparr>p_id = ''A'', p_name = ''Phone'', p_stock = 5, p_price = 1999 / 100\<rparr>"

text \<open>Product B with stock for the cart's line, and with too little.\<close>

definition rowB :: product_row where
  "rowB = \<lparr>p_id = ''B'', p_name = ''Cable'', p_stock = 10, p_price = 5\<rparr>"

definition rowB_short :: product_row where
  "rowB_short = \<lparr>p_id = ''B'', p_name = ''Cable'', p_stock = 2, p_price = 5\<rparr>"

definition sampleForm :: form_data where
  "sampleForm = \<lparr>f_name = ''Rahim'', f_phone = '' +880 1711-000000'', f_address = ''Dhaka'',
                 f_location = Outside_dhaka\<rparr>"

definition samplePage :: world where
  "samplePage = \<lparr>items = [lineA, lineB], formData = sampleForm,
                 deliveryCharges = \<lparr>inside_dhaka = 60, outside_dhaka = 120\<rparr>,
                 loading = False, orderConfirmed = False, orderId = None,
                 orders = [], order_items = []\<rparr>"

text \<open>Replies: the rows fetched, the order stored under id \<open>o1\<close>, and the outcome of the items insert.\<close>

definition sampleReplies :: "product_row list \<Rightarrow> unit reply \<Rightarrow> replies" where
  "sampleReplies ps itemsResult =
     \<lparr>products_reply = Success (Some ps), order_reply = Success (Some ''o1''),
      items_reply = itemsResult, delete_reply = Success ()\<rparr>"

text \<open>The same replies with the compensating delete refused.\<close>

definition refusedReplies :: "product_row list \<Rightarrow> unit reply \<Rightarrow> replies" where
  "refusedReplies ps itemsResult =
     (sampleReplies ps itemsResult)\<lparr>delete_reply := Failure ''refused''\<rparr>"

text \<open>
  A second page: one line whose amounts are binary fractions, so that no sum needs
  rounding, and an order already in the table.
\<close>

definition lineC :: cart_item where
  "lineC = \<lparr>ci_id = ''C'', ci_name = ''Charger'', ci_price = 79 / 4, ci_quantity = 2,
            ci_image_url = JNull\<rparr>"

definition rowC :: product_row where
  "rowC = \<lparr>p_id = ''C'', p_name = ''Charger'', p_stock = 4, p_price = 79 / 4\<rparr>"

definition earlierOrder :: order_row where
  "earlierOrder = \<lparr>o_id = ''o0'', customer_name = ''Karim'', phone = ''01700000000'',
                   address = ''Sylhet'', location_type = Inside_dhaka, total_amount = 500,
                   status = ''pending''\<rparr>"

definition chargerPage :: world where
  "chargerPage = \<lparr>items = [lineC], formData = sampleForm,
                  deliveryCharges = \<lparr>inside_dhaka = 60, outside_dhaka = 120\<rparr>,
                  loading = False, orderConfirmed = False, orderId = None,
                  orders = [earlierOrder], order_items = []\<rparr>"

section \<open>Pagination: proofs\<close>

lemma slice_from:
  assumes a: "0 \<le> a" and n: "0 \<le> n"
  shows "slice xs a (a + n) = take (nat n) (drop (nat a) xs)"
proof (cases "a \<le> int (length xs)")
  case False
  then have "length xs \<le> nat a" by linarith
  moreover from False a n have "slice xs a (a + n) = take 0 (drop (length xs) xs)"
    by (simp add: slice_def Let_def)
  ultimately show ?thesis by simp
next
  case True
  note le = this
  show ?thesis
  proof (cases "a + n \<le> int (length xs)")
    case True
    with le a n have "slice xs a (a + n) = take (nat (a + n - a)) (drop (nat a) xs)"
      by (simp add: slice_def Let_def)
    then show ?thesis by simp
  next
    case False
    with le a n have "slice xs a (a + n) = take (nat (int (length xs) - a)) (drop (nat a) xs)"
      by (simp add: slice_def Let_def)
    moreover have "nat (int (length xs) - a) = length (drop (nat a) xs)"
      using a by (simp add: nat_diff_distrib)
    moreover have "length (drop (nat a) xs) \<le> nat n"
      using False a n unfolding length_drop by linarith
    ultimately show ?thesis by simp
  qed
qed

lemma page_take_drop:
  assumes "1 \<le> p"
  shows "paginatedProducts xs p = take 12 (drop (nat (p - 1) * 12) xs)"
proof -
  have "paginatedProducts xs p = slice xs ((p - 1) * 12) ((p - 1) * 12 + 12)"
    by (simp add: paginatedProducts_def ITEMS_PER_PAGE_def Let_def)
  also have "\<dots> = take (nat 12) (drop (nat ((p - 1) * 12)) xs)"
    using assms by (intro slice_from) simp_all
  also have "nat ((p - 1) * 12) = nat (p - 1) * 12"
    using assms by (simp add: nat_mult_distrib)
  finally show ?thesis by simp
qed

lemma take_drop_nth:
  "take n (drop k xs) = map (\<lambda>i. xs ! i) [k ..< min (k + n) (length xs)]"
proof (rule nth_equalityI)
  show "length (take n (drop k xs)) = length (map (\<lambda>i. xs ! i) [k ..< min (k + n) (length xs)])"
    by (auto simp: min_def)
next
  fix i assume "i < length (take n (drop k xs))"
  then have i: "i < n" "k + i < length xs" by auto
  then have "k + i < min (k + n) (length xs)" by simp
  then have "map (\<lambda>i. xs ! i) [k ..< min (k + n) (length xs)] ! i = xs ! (k + i)"
    by (simp add: less_diff_conv add.commute)
  with i show "take n (drop k xs) ! i = map (\<lambda>i. xs ! i) [k ..< min (k + n) (length xs)] ! i"
    by simp
qed

lemma totalPages_bounds:
  "12 * (totalPages xs - 1) < int (length xs) \<and> int (length xs) \<le> 12 * totalPages xs"
proof -
  define x :: rat where "x = of_nat (length xs) / 12"
  have t: "totalPages xs = \<lceil>x\<rceil>"
    by (simp add: totalPages_def ITEMS_PER_PAGE_def x_def)
  have lo: "of_int \<lceil>x\<rceil> - 1 < x" and hi: "x \<le> of_int \<lceil>x\<rceil>"
    using ceiling_correct [of x] by simp_all
  have "(of_int (12 * (\<lceil>x\<rceil> - 1)) :: rat) < of_int (int (length xs))"
    using lo by (simp add: x_def field_simps)
  then have a: "12 * (\<lceil>x\<rceil> - 1) < int (length xs)"
    by (simp only: of_int_less_iff)
  have "(of_nat (length xs) :: rat) = x * 12"
    by (simp add: x_def)
  also have "\<dots> \<le> of_int \<lceil>x\<rceil> * 12"
    by (rule mult_right_mono [OF hi]) simp
  finally have "(of_int (int (length xs)) :: rat) \<le> of_int (12 * \<lceil>x\<rceil>)"
    by (simp add: mult.commute)
  then have "int (length xs) \<le> 12 * \<lceil>x\<rceil>"
    by (simp only: of_int_le_iff)
  with a show ?thesis by (simp add: t)
qed

text \<open>
  C8. The page count of a list of \<open>n\<close> items is the ceiling of \<open>n / 12\<close>: the integer
  \<open>t\<close> with \<open>12 (t - 1) < n \<le> 12 t\<close>, which is \<open>0\<close> for the empty list. Page \<open>p \<ge> 1\<close>
  holds exactly the items at the positions \<open>(p - 1) * 12\<close> to \<open>p * 12 - 1\<close> that the list
  has, in order. A list of 25 items has 3 pages and its page 3 has 1 item.
\<close>

theorem pagination_pages:
  "12 * (totalPages sortedProducts - 1) < int (length sortedProducts)
   \<and> int (length sortedProducts) \<le> 12 * totalPages sortedProducts
   \<and> (sortedProducts = [] \<longrightarrow> totalPages sortedProducts = 0)
   \<and> (1 \<le> p \<longrightarrow>
        paginatedProducts sortedProducts p =
          map (\<lambda>i. sortedProducts ! i)
            [nat (p - 1) * 12 ..< min (nat p * 12) (length sortedProducts)])
   \<and> (length sortedProducts = 25 \<longrightarrow>
        totalPages sortedProducts = 3 \<and> length (paginatedProducts sortedProducts 3) = 1)"
proof -
  note ab = totalPages_bounds [of sortedProducts]
  have c: "sortedProducts = [] \<longrightarrow> totalPages sortedProducts = 0"
    by (simp add: totalPages_def)
  have d: "1 \<le> p \<longrightarrow> paginatedProducts sortedProducts p =
          map (\<lambda>i. sortedProducts ! i)
            [nat (p - 1) * 12 ..< min (nat p * 12) (length sortedProducts)]"
  proof
    assume p: "1 \<le> p"
    have e: "nat (p - 1) * 12 + 12 = nat p * 12"
      using p by (simp add: nat_diff_distrib)
    show "paginatedProducts sortedProducts p =
          map (\<lambda>i. sortedProducts ! i)
            [nat (p - 1) * 12 ..< min (nat p * 12) (length sortedProducts)]"
      using take_drop_nth [of 12 "nat (p - 1) * 12" sortedProducts]
      by (simp only: page_take_drop [OF p] e)
  qed
  have e: "length sortedProducts = 25 \<longrightarrow>
        totalPages sortedProducts = 3 \<and> length (paginatedProducts sortedProducts 3) = 1"
  proof
    assume n: "length sortedProducts = 25"
    have "totalPages sortedProducts = 3"
      using ab n by simp
    moreover have "length (paginatedProducts sortedProducts 3) = 1"
      using n by (simp add: page_take_drop)
    ultimately show "totalPages sortedProducts = 3 \<and> length (paginatedProducts sortedProducts 3) = 1"
      by simp
  qed
  from ab c d e show ?thesis by simp
qed

theorem pagination_pages_witness:
  "totalPages ''abcdefghijklmnopqrstuvwxy'' = 3
   \<and> paginatedProducts ''abcdefghijklmnopqrstuvwxy'' 3 = ''y''
   \<and> paginatedProducts ''abcdefghijklmnopqrstuvwxy'' 2 = ''mnopqrstuvwx''"
proof -
  have three: "(1::int) \<le> 3" and two: "(1::int) \<le> 2" by simp_all
  show ?thesis
    using pagination_pages [of "''abcdefghijklmnopqrstuvwxy''" 3]
      pagination_pages [of "''abcdefghijklmnopqrstuvwxy''" 2] three two
    by (simp add: paginatedProducts_def slice_def ITEMS_PER_PAGE_def)
qed

section \<open>The analytics emitter: proofs\<close>

text \<open>
  C9, as the specification states it, fails: with a tracking function that throws,
  \<^verbatim>\<open>fbqTrack\<close> ends by throwing the same error to its caller.
\<close>

theorem fbqTrack_throws_counterexample:
  "fst (fbqTrack \<lparr>fbq = Some throwingFbq, tracked = [], warnings = []\<rparr> ''Search'' ())
     = Inl ''transport error''"
  by (simp add: fbqTrack_def throwingFbq_def)

text \<open>
  C9, amended. While the tracking library has not loaded, \<^verbatim>\<open>fbqTrack\<close> only records a
  warning and returns. Once it has loaded, \<^verbatim>\<open>fbqTrack\<close> calls the tracking function
  once, with \<^verbatim>\<open>"track"\<close>, the event and the data, changes nothing else, and ends as that
  call ends: it throws \<open>e\<close> exactly when the tracking call throws \<open>e\<close>. The error is
  passed on, not caught.
\<close>

theorem fbqTrack_outcome:
  "(fbq w = None \<longrightarrow>
      fbqTrack w event data = (Inr (), w\<lparr>warnings := warnings w @ [(event, data)]\<rparr>))
   \<and> (\<forall>f. fbq w = Some f \<longrightarrow>
          snd (fbqTrack w event data) = w\<lparr>tracked := tracked w @ [(''track'', event, data)]\<rparr>
          \<and> fst (fbqTrack w event data)
              = (case f ''track'' event data of None \<Rightarrow> Inr () | Some thrown \<Rightarrow> Inl thrown))
   \<and> (fst (fbqTrack w event data) = Inl e
        \<longleftrightarrow> (\<exists>f. fbq w = Some f \<and> f ''track'' event data = Some e))"
proof (cases "fbq w")
  case None
  then have "fbqTrack w event data = (Inr (), w\<lparr>warnings := warnings w @ [(event, data)]\<rparr>)"
    by (simp add: fbqTrack_def)
  with None show ?thesis by simp
next
  case (Some f)
  have called: "snd (fbqTrack w event data)
      = w\<lparr>tracked := tracked w @ [(''track'', event, data)]\<rparr>"
    using Some by (cases "f ''track'' event data") (simp_all add: fbqTrack_def Let_def)
  show ?thesis
  proof (cases "f ''track'' event data")
    case None
    with Some have "fst (fbqTrack w event data) = Inr ()"
      by (simp add: fbqTrack_def Let_def)
    with Some None called show ?thesis by simp
  next
    case thrown: (Some e')
    with Some have "fst (fbqTrack w event data) = Inl e'"
      by (simp add: fbqTrack_def Let_def)
    with Some thrown called show ?thesis by auto
  qed
qed

theorem fbqTrack_outcome_witness:
  "fbqTrack \<lparr>fbq = (None :: (string \<Rightarrow> string \<Rightarrow> nat \<Rightarrow> string option) option),
       tracked = [], warnings = []\<rparr> ''Search'' 3
     = (Inr (), \<lparr>fbq = None, tracked = [], warnings = [(''Search'', 3)]\<rparr>)
   \<and> fbqTrack \<lparr>fbq = Some quietFbq, tracked = [], warnings = []\<rparr> ''Search'' (3::nat)
     = (Inr () :: string + unit,
        \<lparr>fbq = Some quietFbq, tracked = [(''track'', ''Search'', 3)], warnings = []\<rparr>)
   \<and> fbqTrack \<lparr>fbq = Some throwingFbq, tracked = [], warnings = []\<rparr> ''Search'' (3::nat)
     = (Inl ''transport error'',
        \<lparr>fbq = Some throwingFbq, tracked = [(''track'', ''Search'', 3)], warnings = []\<rparr>)"
proof -
  have absent: "fbqTrack \<lparr>fbq = (None :: (string \<Rightarrow> string \<Rightarrow> nat \<Rightarrow> string option) option),
       tracked = [], warnings = []\<rparr> ''Search'' 3
     = (Inr (), \<lparr>fbq = None, tracked = [], warnings = [(''Search'', 3)]\<rparr>)"
    using fbqTrack_outcome [of "\<lparr>fbq = None, tracked = [], warnings = []\<rparr>" "''Search''" "3::nat" "''e''"]
    by simp
  have quiet: "fbqTrack \<lparr>fbq = Some quietFbq, tracked = [], warnings = []\<rparr> ''Search'' (3::nat)
     = (Inr () :: string + unit,
        \<lparr>fbq = Some quietFbq, tracked = [(''track'', ''Search'', 3)], warnings = []\<rparr>)"
    using fbqTrack_outcome
      [of "\<lparr>fbq = Some quietFbq, tracked = [], warnings = []\<rparr>" "''Search''" "3::nat" "''e''"]
    by (simp add: prod_eq_iff quietFbq_def)
  have throwing: "fbqTrack \<lparr>fbq = Some throwingFbq, tracked = [], warnings = []\<rparr> ''Search'' (3::nat)
     = (Inl ''transport error'',
        \<lparr>fbq = Some throwingFbq, tracked = [(''track'', ''Search'', 3)], warnings = []\<rparr>)"
    using fbqTrack_outcome
      [of "\<lparr>fbq = Some throwingFbq, tracked = [], warnings = []\<rparr>" "''Search''" "3::nat" "''e''"]
    by (simp add: prod_eq_iff throwingFbq_def)
  from absent quiet throwing show ?thesis by simp
qed

section \<open>The strict cart-display normalizer: proofs\<close>



lemma endsWith_suffix: "endsWith s ext \<longleftrightarrow> suffix ext s"
proof
  assume "endsWith s ext"
  then have "drop (length s - length ext) s = ext" by (simp add: endsWith_def)
  then have "s = take (length s - length ext) s @ ext"
    by (metis append_take_drop_id)
  then show "suffix ext s" by (rule suffixI)
next
  assume "suffix ext s"
  then obtain zs where "s = zs @ ext" by (auto simp: suffix_def)
  then show "endsWith s ext" by (simp add: endsWith_def)
qed


lemma isValidImage_iff:
  "isValidImage v \<longleftrightarrow> (\<exists>u. v = JStr u \<and> allowed_image_url u)"
proof (cases v)
  case (JStr s)
  have "s = [] \<Longrightarrow> \<not> allowed_image_url s"
    by (simp add: allowed_image_url_def toLowerCase_def validImageExts_def)
  then show ?thesis
    using JStr
    by (auto simp: isValidImage_def allowed_image_url_def list_ex_iff endsWith_suffix)
qed (simp_all add: isValidImage_def)

lemma imageUrls_entries: "imageUrls parse v = entries_spec parse v"
proof (cases v)
  case (JStr s)
  then show ?thesis
  proof (cases "parse s")
    case None
    with JStr show ?thesis by (simp add: imageUrls_def entries_spec_def)
  next
    case (Some j)
    with JStr show ?thesis by (cases j) (simp_all add: imageUrls_def entries_spec_def)
  qed
qed (simp_all add: imageUrls_def entries_spec_def)

lemma falsy_entries:
  assumes "parse [] = None" and "\<not> truthy v"
  shows "filter isValidImage (entries_spec parse v) = []"
  using assms
  by (cases v) (simp_all add: entries_spec_def isValidImage_def)

lemma first_of_filter:
  "filter P xs = y # ys \<Longrightarrow> \<exists>before after. xs = before @ y # after \<and> P y \<and> (\<forall>e \<in> set before. \<not> P e)"
  by (auto simp: filter_eq_Cons_iff)

text \<open>
  C7. Whatever the input (absent, a single URL string, a JSON-encoded array, a native
  array), \<^verbatim>\<open>getFirstImageUrl\<close> returns the first entry that is a string whose lower-cased
  form ends with one of the allowed image extensions, and returns nothing exactly when no
  entry is such a string. So a URL with a video extension, or any other extension off
  the list, is never returned. (\<^verbatim>\<open>JSON.parse\<close> throws on the empty text.)
\<close>

theorem getFirstImageUrl_first_allowed:
  assumes "parse [] = None"
  shows "(getFirstImageUrl parse imageData = None
            \<longleftrightarrow> \<not> (\<exists>u. JStr u \<in> set (entries_spec parse imageData) \<and> allowed_image_url u))
         \<and> (\<forall>r. getFirstImageUrl parse imageData = Some r \<longrightarrow>
               (\<exists>u before after. r = JStr u \<and> allowed_image_url u
                  \<and> entries_spec parse imageData = before @ JStr u # after
                  \<and> (\<forall>e \<in> set before. \<forall>s. e = JStr s \<longrightarrow> \<not> allowed_image_url s)))"
proof -
  define valid where "valid = filter isValidImage (entries_spec parse imageData)"
  have g: "getFirstImageUrl parse imageData = (case valid of [] \<Rightarrow> None | r # _ \<Rightarrow> Some r)"
  proof (cases "truthy imageData")
    case True
    then show ?thesis
      by (cases valid) (simp_all add: getFirstImageUrl_def Let_def imageUrls_entries valid_def)
  next
    case False
    with assms have "valid = []" unfolding valid_def by (rule falsy_entries)
    with False show ?thesis by (simp add: getFirstImageUrl_def)
  qed
  have none: "getFirstImageUrl parse imageData = None
      \<longleftrightarrow> \<not> (\<exists>u. JStr u \<in> set (entries_spec parse imageData) \<and> allowed_image_url u)"
  proof -
    have "getFirstImageUrl parse imageData = None \<longleftrightarrow> valid = []"
      unfolding g by (cases valid) simp_all
    also have "\<dots> \<longleftrightarrow> (\<forall>e \<in> set (entries_spec parse imageData). \<not> isValidImage e)"
      by (simp add: valid_def filter_empty_conv)
    also have "\<dots> \<longleftrightarrow> \<not> (\<exists>u. JStr u \<in> set (entries_spec parse imageData) \<and> allowed_image_url u)"
      unfolding isValidImage_iff by blast
    finally show ?thesis .
  qed
  have some: "\<exists>u before after. r = JStr u \<and> allowed_image_url u
                  \<and> entries_spec parse imageData = before @ JStr u # after
                  \<and> (\<forall>e \<in> set before. \<forall>s. e = JStr s \<longrightarrow> \<not> allowed_image_url s)"
    if r: "getFirstImageUrl parse imageData = Some r" for r
  proof -
    from r obtain rest where "valid = r # rest"
      unfolding g by (cases valid) simp_all
    then have "filter isValidImage (entries_spec parse imageData) = r # rest"
      by (simp add: valid_def)
    from first_of_filter [OF this] obtain before after where
      split: "entries_spec parse imageData = before @ r # after"
      and ok: "isValidImage r" and first: "\<forall>e \<in> set before. \<not> isValidImage e"
      by blast
    from ok obtain u where u: "r = JStr u" "allowed_image_url u"
      unfolding isValidImage_iff by blast
    from first have "\<forall>e \<in> set before. \<forall>s. e = JStr s \<longrightarrow> \<not> allowed_image_url s"
      unfolding isValidImage_iff by blast
    with split u show ?thesis by blast
  qed
  show ?thesis
  proof (intro conjI allI impI)
    show "getFirstImageUrl parse imageData = None
      \<longleftrightarrow> \<not> (\<exists>u. JStr u \<in> set (entries_spec parse imageData) \<and> allowed_image_url u)"
      by (rule none)
  next
    fix r assume "getFirstImageUrl parse imageData = Some r"
    then show "\<exists>u before after. r = JStr u \<and> allowed_image_url u
                  \<and> entries_spec parse imageData = before @ JStr u # after
                  \<and> (\<forall>e \<in> set before. \<forall>s. e = JStr s \<longrightarrow> \<not> allowed_image_url s)"
      by (rule some)
  qed
qed

theorem getFirstImageUrl_first_allowed_witness:
  "noJson [] = None
   \<and> getFirstImageUrl noJson (JArr [JStr ''clip.MP4'', JNum 3, JStr ''b.WEBP'', JStr ''c.png''])
       = Some (JStr ''b.WEBP'')
   \<and> allowed_image_url ''b.WEBP''"
proof -
  have p: "noJson [] = None" by (simp add: noJson_def)
  have v: "getFirstImageUrl noJson (JArr [JStr ''clip.MP4'', JNum 3, JStr ''b.WEBP'', JStr ''c.png''])
       = Some (JStr ''b.WEBP'')"
    by (simp add: getFirstImageUrl_def imageUrls_def isValidImage_def validImageExts_def
        endsWith_def toLowerCase_def toLowerCase_char_def)
  from getFirstImageUrl_first_allowed [of noJson "JArr [JStr ''clip.MP4'', JNum 3, JStr ''b.WEBP'', JStr ''c.png'']", OF p] v
  have "allowed_image_url ''b.WEBP''" by auto
  with p v show ?thesis by simp
qed

section \<open>The catalog normalizer: proofs\<close>



lemma trim_empty_iff: "trim s = [] \<longleftrightarrow> (\<forall>c \<in> set s. isWhiteSpace c)"
proof
  assume "trim s = []"
  then have all: "\<forall>c \<in> set (dropWhile isWhiteSpace s). isWhiteSpace c"
    by (simp add: trim_def)
  have "dropWhile isWhiteSpace s = []"
  proof (rule ccontr)
    assume ne: "dropWhile isWhiteSpace s \<noteq> []"
    then have "\<not> isWhiteSpace (hd (dropWhile isWhiteSpace s))"
      by (rule hd_dropWhile)
    moreover from ne have "hd (dropWhile isWhiteSpace s) \<in> set (dropWhile isWhiteSpace s)"
      by (rule hd_in_set)
    ultimately show False using all by blast
  qed
  then show "\<forall>c \<in> set s. isWhiteSpace c" by simp
next
  assume "\<forall>c \<in> set s. isWhiteSpace c"
  then have d: "dropWhile isWhiteSpace s = []" by simp
  show "trim s = []" unfolding trim_def d by simp
qed

lemma nonblank_trim: "nonblank_str s \<longleftrightarrow> s \<noteq> [] \<and> trim s \<noteq> []"
  unfolding nonblank_str_def trim_empty_iff by auto

lemma keepImage_nonblank: "keepImage v \<longleftrightarrow> nonblank_string v"
proof (cases v)
  case (JStr s)
  have "nonblank_string (JStr s) \<longleftrightarrow> nonblank_str s"
    by (simp add: nonblank_string_def nonblank_str_def)
  then show ?thesis using JStr by (simp add: keepImage_def nonblank_trim)
qed (simp_all add: keepImage_def nonblank_string_def)

lemma keepString_nonblank: "keepString v \<longleftrightarrow> nonblank_string v"
  using keepImage_nonblank [of v] by (simp add: keepString_def keepImage_def)

lemma nonblank_single: "filter nonblank_string [JStr s] = (if s \<noteq> [] \<and> trim s \<noteq> [] then [JStr s] else [])"
  using keepImage_nonblank [of "JStr s"] by (simp add: keepImage_def)


lemma fallback_listOf:
  "imageUrlFallback p imgs =
     (if listOf imgs \<noteq> [] then Some (listOf imgs)
      else (case image_url p of
              Some u \<Rightarrow> if nonblank_str u then Some [JStr u] else None
            | None \<Rightarrow> None))"
proof (cases "image_url p")
  case None
  then show ?thesis
    by (cases imgs) (simp_all add: imageUrlFallback_def listOf_def)
next
  case (Some u)
  then show ?thesis
    by (cases imgs) (simp_all add: imageUrlFallback_def listOf_def nonblank_trim)
qed

lemma nonblank_string_JStr: "nonblank_string (JStr s) \<longleftrightarrow> s \<noteq> [] \<and> trim s \<noteq> []"
  using keepImage_nonblank [of "JStr s"] by (simp add: keepImage_def)

lemma keepImage_eq: "keepImage = nonblank_string"
  by (rule ext) (rule keepImage_nonblank)

lemma keepString_eq: "keepString = nonblank_string"
  by (rule ext) (rule keepString_nonblank)

lemma spec_listOf:
  assumes "listOf imgs = filter nonblank_string (entries_spec parse (images p))"
  shows "imageUrlFallback p imgs = normalize_spec nonblank_str parse p"
  unfolding fallback_listOf normalize_spec_def Let_def assms
  by (simp split: option.splits)

lemma home_refines: "parseImages_home parse p = normalize_spec nonblank_str parse p"
proof (cases "images p")
  case (JStr s)
  show ?thesis
  proof (cases "parse s")
    case None
    have "parseImages_home parse p =
        imageUrlFallback p (if s \<noteq> [] \<and> trim s \<noteq> [] then Some [JStr s] else None)"
      using JStr None by (simp add: parseImages_home_def)
    also have "\<dots> = normalize_spec nonblank_str parse p"
      using JStr None
      by (intro spec_listOf) (simp add: listOf_def entries_spec_def nonblank_string_JStr)
    finally show ?thesis .
  next
    case (Some j)
    show ?thesis
    proof (cases "\<exists>xs. j = JArr xs")
      case True
      then obtain xs where j: "j = JArr xs" by blast
      have "parseImages_home parse p = imageUrlFallback p (Some (filter keepImage xs))"
        using JStr Some j by (simp add: parseImages_home_def)
      also have "\<dots> = normalize_spec nonblank_str parse p"
        using JStr Some j
        by (intro spec_listOf) (simp add: listOf_def entries_spec_def keepImage_eq)
      finally show ?thesis .
    next
      case False
      have "parseImages_home parse p = imageUrlFallback p (Some (filter keepString [JStr s]))"
        using JStr Some False by (cases j) (simp_all add: parseImages_home_def)
      also have "\<dots> = normalize_spec nonblank_str parse p"
      proof (rule spec_listOf)
        have "entries_spec parse (images p) = [JStr s]"
          using JStr Some False by (cases j) (simp_all add: entries_spec_def)
        then show "listOf (Some (filter keepString [JStr s]))
            = filter nonblank_string (entries_spec parse (images p))"
          by (simp add: listOf_def keepString_eq)
      qed
      finally show ?thesis .
    qed
  qed
next
  case (JArr xs)
  have "parseImages_home parse p = imageUrlFallback p (Some (filter keepImage xs))"
    using JArr by (simp add: parseImages_home_def)
  also have "\<dots> = normalize_spec nonblank_str parse p"
    using JArr by (intro spec_listOf) (simp add: listOf_def entries_spec_def keepImage_eq)
  finally show ?thesis .
next
  case JUndefined
  then have "parseImages_home parse p = imageUrlFallback p None"
    by (simp add: parseImages_home_def)
  also have "\<dots> = normalize_spec nonblank_str parse p"
    using JUndefined by (intro spec_listOf) (simp add: listOf_def entries_spec_def)
  finally show ?thesis .
next
  case JNull
  then have "parseImages_home parse p = imageUrlFallback p None"
    by (simp add: parseImages_home_def)
  also have "\<dots> = normalize_spec nonblank_str parse p"
    using JNull by (intro spec_listOf) (simp add: listOf_def entries_spec_def)
  finally show ?thesis .
next
  case (JBool x)
  then have "parseImages_home parse p = imageUrlFallback p None"
    by (simp add: parseImages_home_def)
  also have "\<dots> = normalize_spec nonblank_str parse p"
    using JBool by (intro spec_listOf) (simp add: listOf_def entries_spec_def)
  finally show ?thesis .
next
  case (JNum x)
  then have "parseImages_home parse p = imageUrlFallback p None"
    by (simp add: parseImages_home_def)
  also have "\<dots> = normalize_spec nonblank_str parse p"
    using JNum by (intro spec_listOf) (simp add: listOf_def entries_spec_def)
  finally show ?thesis .
next
  case (JObj x)
  then have "parseImages_home parse p = imageUrlFallback p None"
    by (simp add: parseImages_home_def)
  also have "\<dots> = normalize_spec nonblank_str parse p"
    using JObj by (intro spec_listOf) (simp add: listOf_def entries_spec_def)
  finally show ?thesis .
qed

text \<open>The two pages parse the image field to the same result.\<close>

lemma details_home: "parseImages_details parse p = parseImages_home parse p"
proof (cases "images p")
  case (JStr s)
  show ?thesis
  proof (cases "parse s")
    case None
    with JStr show ?thesis by (simp add: parseImages_details_def parseImages_home_def)
  next
    case (Some j)
    have "imageUrlFallback p (Some []) = imageUrlFallback p None"
      by (simp add: imageUrlFallback_def split: option.splits)
    with JStr Some show ?thesis
      by (cases j) (simp_all add: parseImages_details_def parseImages_home_def keepString_def)
  qed
qed (simp_all add: parseImages_details_def parseImages_home_def)

text \<open>
  C6, amended. On both pages the parsed image list is the one the specification
  describes, with the legacy \<^verbatim>\<open>image_url\<close> used when it is present and not blank: a
  string field is JSON-parsed, the array taken if there is one and the string itself
  otherwise; an array is kept; the entries are filtered, in order, to the non-blank
  strings; an empty result falls back to the legacy field; and with no valid media the
  result is undefined (\<open>None\<close>), never an empty list and never an error.
\<close>

theorem catalog_normalizer_refines:
  "parseImages_home parse p = normalize_spec nonblank_str parse p
   \<and> parseImages_details parse p = normalize_spec nonblank_str parse p
   \<and> parseImages_home parse p \<noteq> Some []"
proof -
  have "normalize_spec nonblank_str parse p \<noteq> Some []"
    by (simp add: normalize_spec_def Let_def split: option.splits)
  then show ?thesis
    by (simp add: details_home home_refines)
qed

text \<open>
  C6 as the specification states it, with the legacy field used whenever it is present
  and non-empty, fails for a legacy field that holds only a space: both pages leave the
  images undefined.
\<close>

theorem catalog_normalizer_counterexample:
  "parseImages_home noJson \<lparr>images = JNull, image_url = Some '' ''\<rparr> = None
   \<and> parseImages_details noJson \<lparr>images = JNull, image_url = Some '' ''\<rparr> = None
   \<and> normalize_spec nonempty_str noJson \<lparr>images = JNull, image_url = Some '' ''\<rparr>
        = Some [JStr '' '']"
  by (simp add: parseImages_home_def parseImages_details_def imageUrlFallback_def
      normalize_spec_def entries_spec_def nonempty_str_def trim_def isWhiteSpace_def)

theorem catalog_normalizer_refines_witness:
  "parseImages_home noJson
     \<lparr>images = JArr [JStr ''a.png'', JStr ''  '', JNum 7, JStr ''b.mp4''], image_url = Some ''old.jpg''\<rparr>
     = Some [JStr ''a.png'', JStr ''b.mp4'']
   \<and> parseImages_details noJson \<lparr>images = JStr '' '', image_url = Some ''old.jpg''\<rparr>
     = Some [JStr ''old.jpg'']"
  using catalog_normalizer_refines [of noJson
      "\<lparr>images = JArr [JStr ''a.png'', JStr ''  '', JNum 7, JStr ''b.mp4''], image_url = Some ''old.jpg''\<rparr>"]
    catalog_normalizer_refines [of noJson "\<lparr>images = JStr '' '', image_url = Some ''old.jpg''\<rparr>"]
  by (simp add: normalize_spec_def entries_spec_def nonblank_string_def nonblank_str_def
      isWhiteSpace_def noJson_def)

section \<open>Checkout: proofs\<close>

lemma sample_validateCart: "validateCart (items samplePage) = None"
  by (simp add: samplePage_def validateCart_def lineA_def lineB_def)

lemma sample_validateForm: "validateForm (formData samplePage) = None"
  by (simp add: samplePage_def validateForm_def sampleForm_def trim_def isWhiteSpace_def
      phoneRegex_test_def)

lemma foldl_removeItem:
  "foldl (\<lambda>its item. removeItem (ci_id item) its) its missing
     = filter (\<lambda>i. ci_id i \<notin> ci_id ` set missing) its"
proof (induction missing arbitrary: its)
  case Nil
  then show ?case by simp
next
  case (Cons m missing)
  have "foldl (\<lambda>its item. removeItem (ci_id item) its) its (m # missing)
      = filter (\<lambda>i. ci_id i \<notin> ci_id ` set missing) (removeItem (ci_id m) its)"
    by (simp add: Cons.IH)
  also have "\<dots> = filter (\<lambda>i. ci_id i \<notin> ci_id ` set (m # missing)) its"
    by (auto simp: removeItem_def intro: filter_cong)
  finally show ?case .
qed

lemma remove_missing:
  "foldl (\<lambda>its item. removeItem (ci_id item) its) its (missingItems (Some ps) its)
     = filter (\<lambda>i. ci_id i \<in> set (map p_id ps)) its"
  unfolding foldl_removeItem
  by (rule filter_cong) (auto simp: missingItems_def)

lemma validateCart_nonempty: "validateCart its = None \<Longrightarrow> its \<noteq> []"
  by (auto simp: validateCart_def split: if_splits)

lemma present_no_missing:
  assumes "\<forall>item \<in> set its. ci_id item \<in> set (map p_id ps)"
  shows "missingItems (Some ps) its = []"
  using assms by (simp add: missingItems_def filter_empty_conv)

lemma present_available:
  assumes "\<forall>item \<in> set its. ci_id item \<in> set (map p_id ps)"
  shows "\<not> productsUnavailable (Some ps) its"
  by (simp add: productsUnavailable_def present_no_missing [OF assms])

lemma find_by_key:
  assumes "distinct (map f xs)"
  shows "filter (\<lambda>x. f x = k) xs = (case List.find (\<lambda>x. f x = k) xs of None \<Rightarrow> [] | Some x \<Rightarrow> [x])"
  using assms
proof (induction xs)
  case Nil
  then show ?case by simp
next
  case (Cons x xs)
  show ?case
  proof (cases "f x = k")
    case True
    from Cons.prems have "f x \<notin> f ` set xs" by simp
    with True have "\<forall>y \<in> set xs. f y \<noteq> k" by blast
    then have "filter (\<lambda>x. f x = k) xs = []" by (simp add: filter_empty_conv)
    with True show ?thesis by simp
  next
    case False
    with Cons show ?thesis by simp
  qed
qed

lemma outOfStock_shortLines:
  assumes "distinct (map p_id ps)"
  shows "outOfStockItems (Some ps) its = shortLines ps its"
proof (induction its)
  case Nil
  then show ?case by (simp add: shortLines_def)
next
  case (Cons item its)
  have split: "filter (\<lambda>p. p_id p = ci_id item \<and> p_stock p < ci_quantity item) ps
      = filter (\<lambda>p. p_stock p < ci_quantity item) (filter (\<lambda>p. p_id p = ci_id item) ps)"
    by (simp add: conj_commute)
  have tl: "shortLines ps (item # its)
      = map (\<lambda>p. (p_name p, p_stock p))
          (filter (\<lambda>p. p_id p = ci_id item \<and> p_stock p < ci_quantity item) ps)
        @ shortLines ps its"
    by (simp add: shortLines_def)
  show ?case
    unfolding tl split find_by_key [OF assms]
    by (simp add: findProduct_def Cons.IH split: option.splits)
qed

lemma shortLines_nonempty:
  assumes "\<exists>item \<in> set its. shortLine ps item"
  shows "shortLines ps its \<noteq> []"
proof -
  from assms obtain item p where "item \<in> set its" "p \<in> set ps"
    "p_id p = ci_id item" "p_stock p < ci_quantity item"
    by (auto simp: shortLine_def)
  then show ?thesis
    by (auto simp: shortLines_def filter_empty_conv)
qed

lemma no_short_no_outOfStock:
  assumes "\<forall>item \<in> set its. \<not> shortLine ps item"
  shows "outOfStockItems (Some ps) its = []"
  using assms
proof (induction its)
  case Nil
  then show ?case by simp
next
  case (Cons item its)
  show ?case
  proof (cases "findProduct (Some ps) item")
    case None
    with Cons show ?thesis by simp
  next
    case (Some p)
    then have "p \<in> set ps" "p_id p = ci_id item"
      by (auto simp: findProduct_def find_Some_iff)
    with Cons.prems have "\<not> p_stock p < ci_quantity item"
      by (auto simp: shortLine_def)
    with Some Cons show ?thesis by simp
  qed
qed

lemma present_orderItems:
  assumes "\<forall>item \<in> set its. ci_id item \<in> set (map p_id ps)"
  shows "orderItems oid (Some ps) its =
     map (\<lambda>item. \<lparr>order_id = oid, product_id = ci_id item, quantity = ci_quantity item,
                  price = toFixed2 (ci_price item)\<rparr>) its"
proof -
  have "filter (\<lambda>item. list_ex (\<lambda>p. p_id p = ci_id item) ps) its = its"
    using assms by (fastforce simp: filter_id_conv list_ex_iff)
  then show ?thesis by (simp add: orderItems_def)
qed

lemma answers_all_present:
  assumes q: "answersQuery ps its" and a: "\<not> productsUnavailable (Some ps) its"
  shows "\<forall>item \<in> set its. ci_id item \<in> set (map p_id ps)"
proof (cases "length ps = length its")
  case False
  with a have "missingItems (Some ps) its = []"
    by (simp add: productsUnavailable_def)
  then show ?thesis
    by (simp add: missingItems_def filter_empty_conv)
next
  case True
  from q have d: "distinct (map p_id ps)"
    and sub: "set (map p_id ps) \<subseteq> set (map ci_id its)"
    by (simp_all add: answersQuery_def)
  have "card (set (map ci_id its)) \<le> length its"
    by (metis card_length length_map)
  also have "\<dots> = card (set (map p_id ps))"
    using d True by (metis distinct_card length_map)
  finally have "set (map p_id ps) = set (map ci_id its)"
    using sub by (intro card_seteq) simp_all
  then show ?thesis by auto
qed


lemma handleSubmit_reconcile:
  assumes "validateCart (items w) = None" and "validateForm (formData w) = None"
  shows "handleSubmit jsPlus env w = reconcile jsPlus env w"
  using assms by (simp add: handleSubmit_def)

lemma reconcile_insertOrder:
  assumes "products_reply env = Success existingProducts"
    and "\<not> productsUnavailable existingProducts (items w)"
    and "outOfStockItems existingProducts (items w) = []"
  shows "reconcile jsPlus env w = insertOrder jsPlus env w existingProducts"
  using assms by (simp add: reconcile_def)

lemma insertOrder_insertItems:
  assumes "order_reply env = Success (Some oid)" and "oid \<noteq> []"
  shows "insertOrder jsPlus env w existingProducts =
     insertItems env (w\<lparr>orders := orders w @ [newOrder jsPlus w oid]\<rparr>) existingProducts oid"
  using assms by (simp add: insertOrder_def)

text \<open>
  C1. When validation reaches the stock check (cart and form pass, every cart product id
  is among the fetched rows, the rows having pairwise different ids) and some line asks
  for more than the live stock of its product, the submission is rejected as out of
  stock, listing exactly the short lines by product name and live stock; no order row and
  no order item is stored and the cart is as it was.
\<close>

theorem out_of_stock_rejects:
  assumes reach: "reachesStockCheck env w ps"
    and key: "distinct (map p_id ps)"
    and short: "\<exists>item \<in> set (items w). shortLine ps item"
  shows "handleSubmit jsPlus env w = (OutOfStock (shortLines ps (items w)), w\<lparr>loading := False\<rparr>)
         \<and> shortLines ps (items w) \<noteq> []
         \<and> items (snd (handleSubmit jsPlus env w)) = items w
         \<and> orders (snd (handleSubmit jsPlus env w)) = orders w
         \<and> order_items (snd (handleSubmit jsPlus env w)) = order_items w"
proof -
  from reach have cart: "validateCart (items w) = None"
    and form: "validateForm (formData w) = None"
    and reply: "products_reply env = Success (Some ps)"
    and present: "\<forall>item \<in> set (items w). ci_id item \<in> set (map p_id ps)"
    by (simp_all add: reachesStockCheck_def)
  have avail: "\<not> productsUnavailable (Some ps) (items w)"
    using present by (rule present_available)
  have lines: "outOfStockItems (Some ps) (items w) = shortLines ps (items w)"
    using key by (rule outOfStock_shortLines)
  have ne: "shortLines ps (items w) \<noteq> []"
    using short by (rule shortLines_nonempty)
  have "handleSubmit jsPlus env w = reconcile jsPlus env w"
    using cart form by (rule handleSubmit_reconcile)
  also have "\<dots> = (OutOfStock (shortLines ps (items w)), w\<lparr>loading := False\<rparr>)"
    using reply avail ne by (simp add: reconcile_def lines)
  finally have r: "handleSubmit jsPlus env w = (OutOfStock (shortLines ps (items w)), w\<lparr>loading := False\<rparr>)" .
  with ne show ?thesis by simp
qed

theorem out_of_stock_rejects_witness:
  "handleSubmit exactPlus (sampleReplies [rowA, rowB_short] (Success ())) samplePage
     = (OutOfStock [(''Cable'', 2)], samplePage)"
proof -
  have reach: "reachesStockCheck (sampleReplies [rowA, rowB_short] (Success ())) samplePage
      [rowA, rowB_short]"
    using sample_validateCart sample_validateForm
    by (simp add: reachesStockCheck_def sampleReplies_def)
      (simp add: samplePage_def lineA_def lineB_def rowA_def rowB_short_def)
  have key: "distinct (map p_id [rowA, rowB_short])"
    by (simp add: rowA_def rowB_short_def)
  have short: "\<exists>item \<in> set (items samplePage). shortLine [rowA, rowB_short] item"
    by (simp add: samplePage_def shortLine_def lineA_def lineB_def rowA_def rowB_short_def)
  have lines: "shortLines [rowA, rowB_short] (items samplePage) = [(''Cable'', 2)]"
    by (simp add: samplePage_def shortLines_def lineA_def lineB_def rowA_def rowB_short_def)
  have same: "samplePage\<lparr>loading := False\<rparr> = samplePage"
    by (simp add: samplePage_def)
  from out_of_stock_rejects [OF reach key short] show ?thesis
    by (simp add: lines same)
qed

text \<open>
  C2. When the product query answers with a number of rows that differs from the number
  of distinct cart product ids, the submission is rejected as products unavailable,
  naming the lines whose product was not fetched; exactly those lines are removed from
  the cart, and no order row is stored.
\<close>

theorem unavailable_products_removed:
  assumes cart: "validateCart (items w) = None"
    and form: "validateForm (formData w) = None"
    and reply: "products_reply env = Success (Some ps)"
    and query: "answersQuery ps (items w)"
    and size: "length ps \<noteq> card (set (map ci_id (items w)))"
  shows "handleSubmit jsPlus env w =
           (ProductsUnavailable
              (map ci_name (filter (\<lambda>item. ci_id item \<notin> set (map p_id ps)) (items w))),
            w\<lparr>items := filter (\<lambda>item. ci_id item \<in> set (map p_id ps)) (items w),
              loading := False\<rparr>)
         \<and> filter (\<lambda>item. ci_id item \<notin> set (map p_id ps)) (items w) \<noteq> []
         \<and> orders (snd (handleSubmit jsPlus env w)) = orders w
         \<and> order_items (snd (handleSubmit jsPlus env w)) = order_items w"
proof -
  from query have d: "distinct (map p_id ps)"
    and sub: "set (map p_id ps) \<subseteq> set (map ci_id (items w))"
    by (simp_all add: answersQuery_def)
  have len: "length ps = card (set (map p_id ps))"
    using d by (metis distinct_card length_map)
  have strict: "set (map p_id ps) \<noteq> set (map ci_id (items w))"
    using size len by auto
  with sub obtain item where item: "item \<in> set (items w)" "ci_id item \<notin> set (map p_id ps)"
    by auto
  have missing: "missingItems (Some ps) (items w)
      = filter (\<lambda>item. ci_id item \<notin> set (map p_id ps)) (items w)"
    by (simp add: missingItems_def)
  have ne: "filter (\<lambda>item. ci_id item \<notin> set (map p_id ps)) (items w) \<noteq> []"
    using item by (auto simp: filter_empty_conv)
  have "card (set (map p_id ps)) < card (set (map ci_id (items w)))"
    using sub strict by (intro psubset_card_mono) auto
  also have "\<dots> \<le> length (items w)"
    by (metis card_length length_map)
  finally have "length ps \<noteq> length (items w)"
    using len by simp
  with ne have un: "productsUnavailable (Some ps) (items w)"
    by (simp add: productsUnavailable_def missing)
  have "handleSubmit jsPlus env w = reconcile jsPlus env w"
    using cart form by (rule handleSubmit_reconcile)
  also have "\<dots> = (ProductsUnavailable
              (map ci_name (filter (\<lambda>item. ci_id item \<notin> set (map p_id ps)) (items w))),
            w\<lparr>items := filter (\<lambda>item. ci_id item \<in> set (map p_id ps)) (items w),
              loading := False\<rparr>)"
    using reply un
    by (simp add: reconcile_def Let_def remove_missing) (simp add: missing)
  finally show ?thesis using ne by simp
qed

theorem unavailable_products_removed_witness:
  "handleSubmit exactPlus (sampleReplies [rowA] (Success ())) samplePage
     = (ProductsUnavailable [''Cable''], samplePage\<lparr>items := [lineA], loading := False\<rparr>)"
proof -
  have reply: "products_reply (sampleReplies [rowA] (Success ())) = Success (Some [rowA])"
    by (simp add: sampleReplies_def)
  have query: "answersQuery [rowA] (items samplePage)"
    by (simp add: answersQuery_def samplePage_def rowA_def lineA_def)
  have size: "length [rowA] \<noteq> card (set (map ci_id (items samplePage)))"
    by (simp add: samplePage_def lineA_def lineB_def)
  have gone: "map ci_name (filter (\<lambda>item. ci_id item \<notin> set (map p_id [rowA])) (items samplePage))
      = [''Cable'']"
    by (simp add: samplePage_def lineA_def lineB_def rowA_def)
  have kept: "filter (\<lambda>item. ci_id item \<in> set (map p_id [rowA])) (items samplePage) = [lineA]"
    by (simp add: samplePage_def lineA_def lineB_def rowA_def)
  from unavailable_products_removed [OF sample_validateCart sample_validateForm reply query size]
  show ?thesis
    by (simp only: gone kept)
qed


lemma round_half_close:
  fixes y :: rat
  shows "\<bar>of_int \<lfloor>y * 100 + 1 / 2\<rfloor> / 100 - y\<bar> \<le> 1 / 200"
proof -
  define n where "n = \<lfloor>y * 100 + 1 / 2\<rfloor>"
  have "of_int n \<le> y * 100 + 1 / 2" and "y * 100 + 1 / 2 < of_int n + 1"
    unfolding n_def by linarith+
  then have "of_int n / 100 - y \<le> 1 / 200" and "- (1 / 200) \<le> of_int n / 100 - y"
    by (simp_all add: field_simps)
  then show ?thesis
    unfolding n_def [symmetric] by linarith
qed

lemma toFixed2_two_decimals:
  assumes "\<bar>x\<bar> < 10 ^ 21"
  shows "(\<exists>n::int. toFixed2 x = of_int n / 100) \<and> \<bar>toFixed2 x - x\<bar> \<le> 1 / 200"
proof (cases "x < 0")
  case True
  with assms have t: "toFixed2 x = - (of_int \<lfloor>(- x) * 100 + 1 / 2\<rfloor> / 100)"
    by (simp add: toFixed2_def)
  have "toFixed2 x = of_int (- \<lfloor>(- x) * 100 + 1 / 2\<rfloor>) / 100"
    by (simp add: t)
  then have ex: "\<exists>n::int. toFixed2 x = of_int n / 100" by blast
  have "\<bar>toFixed2 x - x\<bar> = \<bar>of_int \<lfloor>(- x) * 100 + 1 / 2\<rfloor> / 100 - (- x)\<bar>"
    unfolding t by (simp add: abs_minus_commute)
  also have "\<dots> \<le> 1 / 200" by (rule round_half_close)
  finally show ?thesis using ex by simp
next
  case False
  with assms have t: "toFixed2 x = of_int \<lfloor>x * 100 + 1 / 2\<rfloor> / 100"
    by (simp add: toFixed2_def)
  then have ex: "\<exists>n::int. toFixed2 x = of_int n / 100" by blast
  have "\<bar>toFixed2 x - x\<bar> \<le> 1 / 200"
    unfolding t by (rule round_half_close)
  with ex show ?thesis by simp
qed

lemma toFixed2_cents:
  assumes "0 \<le> n" and "n < 10 ^ 23"
  shows "toFixed2 (of_int n / 100) = of_int n / 100"
proof -
  have small: "\<not> 10 ^ 21 \<le> \<bar>(of_int n :: rat) / 100\<bar>"
  proof -
    have "(of_int n :: rat) < of_int (10 ^ 23)"
      using assms(2) by (simp only: of_int_less_iff)
    then have "(of_int n :: rat) / 100 < 10 ^ 21" by simp
    moreover have "0 \<le> (of_int n :: rat) / 100" using assms(1) by simp
    ultimately show ?thesis by simp
  qed
  have "\<lfloor>(of_int n :: rat) + 1 / 2\<rfloor> = n"
    by (rule floor_unique) simp_all
  then have "\<lfloor>(of_int n :: rat) / 100 * 100 + 1 / 2\<rfloor> = n" by simp
  moreover have "\<not> (of_int n :: rat) / 100 < 0" using assms(1) by simp
  ultimately show ?thesis
    using small unfolding toFixed2_def by simp
qed

lemma compensate_new:
  "compensate env oid (rows @ [newOrder jsPlus w oid]) =
     (case delete_reply env of
        Success u \<Rightarrow> filter (\<lambda>r. o_id r \<noteq> oid) rows
      | Failure m \<Rightarrow> rows @ [newOrder jsPlus w oid])"
  by (cases "delete_reply env") (simp_all add: compensate_def deleteOrder_def newOrder_def)

lemma filter_fresh:
  assumes "oid \<notin> set (map o_id rows)"
  shows "filter (\<lambda>r. o_id r \<noteq> oid) rows = rows"
  using assms by (auto simp: filter_id_conv)

text \<open>
  C3 as the specification states it fails when the backend refuses the compensating
  delete: the page reports the same failure, and the order row just stored stays in the
  table, beside the order that was there before.
\<close>

theorem refused_delete_counterexample:
  "fst (handleSubmit exactPlus (refusedReplies [rowC] (Failure ''timeout'')) chargerPage)
     = OrderFailed (OrderItemsError ''timeout'')
   \<and> map o_id (orders (snd (handleSubmit exactPlus (refusedReplies [rowC] (Failure ''timeout''))
        chargerPage))) = [''o0'', ''o1'']"
  by (simp add: handleSubmit_def reconcile_def insertOrder_def insertItems_def compensate_def
      refusedReplies_def sampleReplies_def chargerPage_def validateCart_def validateForm_def
      sampleForm_def trim_def isWhiteSpace_def phoneRegex_test_def productsUnavailable_def
      missingItems_def findProduct_def orderItems_def newOrder_def earlierOrder_def
      lineC_def rowC_def)

text \<open>
  C3, amended. When the order insert succeeds and then the order-items insert fails, or
  there is no valid order item to insert, the page sends a compensating delete for the
  new order id, does not read its result, and reports failure; no order item is stored
  and the cart is as it was. When the delete is carried out, no row with the new id is
  left and every other order stays, so that, the id being new, the table is as it was
  before the submission; when the delete fails, the new order row stays.
\<close>

theorem failed_items_insert_compensated:
  assumes reach: "reachesOrderInsert env w existingProducts"
    and order: "order_reply env = Success (Some oid)" and oid: "oid \<noteq> []"
    and fails: "orderItems oid existingProducts (items w) = [] \<or> items_reply env = Failure msg"
  shows "handleSubmit jsPlus env w =
           (OrderFailed (if orderItems oid existingProducts (items w) = [] then NoValidItems
                         else OrderItemsError msg),
            w\<lparr>orders := (case delete_reply env of
                            Success u \<Rightarrow> filter (\<lambda>r. o_id r \<noteq> oid) (orders w)
                          | Failure m \<Rightarrow> orders w @ [newOrder jsPlus w oid]),
              loading := False\<rparr>)
         \<and> (delete_reply env = Success () \<longrightarrow>
               orders (snd (handleSubmit jsPlus env w)) = filter (\<lambda>r. o_id r \<noteq> oid) (orders w)
               \<and> oid \<notin> set (map o_id (orders (snd (handleSubmit jsPlus env w))))
               \<and> (oid \<notin> set (map o_id (orders w)) \<longrightarrow>
                     orders (snd (handleSubmit jsPlus env w)) = orders w))
         \<and> order_items (snd (handleSubmit jsPlus env w)) = order_items w
         \<and> items (snd (handleSubmit jsPlus env w)) = items w"
proof -
  let ?w1 = "w\<lparr>orders := orders w @ [newOrder jsPlus w oid]\<rparr>"
  let ?rows = "case delete_reply env of
                 Success u \<Rightarrow> filter (\<lambda>r. o_id r \<noteq> oid) (orders w)
               | Failure m \<Rightarrow> orders w @ [newOrder jsPlus w oid]"
  let ?w2 = "w\<lparr>orders := ?rows, loading := False\<rparr>"
  let ?t = "if orderItems oid existingProducts (items w) = [] then NoValidItems
            else OrderItemsError msg"
  from reach have cart: "validateCart (items w) = None"
    and form: "validateForm (formData w) = None"
    and reply: "products_reply env = Success existingProducts"
    and avail: "\<not> productsUnavailable existingProducts (items w)"
    and stock: "outOfStockItems existingProducts (items w) = []"
    by (simp_all add: reachesOrderInsert_def)
  have "handleSubmit jsPlus env w = reconcile jsPlus env w"
    using cart form by (rule handleSubmit_reconcile)
  also have "\<dots> = insertOrder jsPlus env w existingProducts"
    using reply avail stock by (rule reconcile_insertOrder)
  also have "\<dots> = insertItems env ?w1 existingProducts oid"
    using order oid by (rule insertOrder_insertItems)
  also have "\<dots> = (OrderFailed ?t, ?w2)"
  proof (cases "orderItems oid existingProducts (items w) = []")
    case True
    then show ?thesis by (simp add: insertItems_def compensate_new)
  next
    case False
    with fails have "items_reply env = Failure msg" by blast
    with False show ?thesis by (simp add: insertItems_def compensate_new)
  qed
  finally have t: "handleSubmit jsPlus env w = (OrderFailed ?t, ?w2)" .
  have removed: "orders (snd (handleSubmit jsPlus env w)) = filter (\<lambda>r. o_id r \<noteq> oid) (orders w)"
    if "delete_reply env = Success ()"
    unfolding t using that by simp
  have gone: "oid \<notin> set (map o_id (orders (snd (handleSubmit jsPlus env w))))"
    if "delete_reply env = Success ()"
    unfolding removed [OF that] by auto
  have same: "orders (snd (handleSubmit jsPlus env w)) = orders w"
    if "delete_reply env = Success ()" and "oid \<notin> set (map o_id (orders w))"
    unfolding removed [OF that(1)] using that(2) by (rule filter_fresh)
  have rest: "order_items (snd (handleSubmit jsPlus env w)) = order_items w"
    "items (snd (handleSubmit jsPlus env w)) = items w"
    unfolding t by simp_all
  from t removed gone same rest show ?thesis by blast
qed

theorem failed_items_insert_compensated_witness:
  "handleSubmit exactPlus (sampleReplies [rowC] (Failure ''timeout'')) chargerPage
     = (OrderFailed (OrderItemsError ''timeout''), chargerPage)
   \<and> orders chargerPage = [earlierOrder]"
proof -
  let ?env = "sampleReplies [rowC] (Failure ''timeout'')"
  have cart: "validateCart (items chargerPage) = None"
    by (simp add: chargerPage_def validateCart_def lineC_def)
  have form: "validateForm (formData chargerPage) = None"
    by (simp add: chargerPage_def validateForm_def sampleForm_def trim_def isWhiteSpace_def
        phoneRegex_test_def)
  have reach: "reachesOrderInsert ?env chargerPage (Some [rowC])"
    using cart form
    by (simp add: reachesOrderInsert_def sampleReplies_def)
      (simp add: chargerPage_def productsUnavailable_def findProduct_def lineC_def rowC_def)
  have order: "order_reply ?env = Success (Some ''o1'')" and oid: "''o1'' \<noteq> []"
    and deleted: "delete_reply ?env = Success ()"
    by (simp_all add: sampleReplies_def)
  have fails: "orderItems ''o1'' (Some [rowC]) (items chargerPage) = []
                \<or> items_reply ?env = Failure ''timeout''"
    by (simp add: sampleReplies_def)
  have rows: "orderItems ''o1'' (Some [rowC]) (items chargerPage) \<noteq> []"
    by (simp add: orderItems_def chargerPage_def lineC_def rowC_def)
  have kept: "filter (\<lambda>r. o_id r \<noteq> ''o1'') (orders chargerPage) = orders chargerPage"
    by (simp add: chargerPage_def earlierOrder_def)
  have restored: "chargerPage\<lparr>orders := orders chargerPage, loading := False\<rparr> = chargerPage"
    by (simp add: chargerPage_def)
  have table: "orders chargerPage = [earlierOrder]"
    by (simp add: chargerPage_def)
  from failed_items_insert_compensated [OF reach order oid fails, of exactPlus]
  have "handleSubmit exactPlus ?env chargerPage = (OrderFailed (OrderItemsError ''timeout''), chargerPage)"
    by (simp only: rows deleted if_False reply.case kept restored)
  with table show ?thesis by simp
qed

lemma passes_reaches_insert:
  assumes "passesValidation env w ps"
  shows "reachesOrderInsert env w (Some ps)"
proof -
  from assms have reach: "reachesStockCheck env w ps"
    and ok: "\<forall>item \<in> set (items w). \<not> shortLine ps item"
    by (simp_all add: passesValidation_def)
  from reach have present: "\<forall>item \<in> set (items w). ci_id item \<in> set (map p_id ps)"
    by (simp add: reachesStockCheck_def)
  have "\<not> productsUnavailable (Some ps) (items w)"
    using present by (rule present_available)
  moreover have "outOfStockItems (Some ps) (items w) = []"
    using ok by (rule no_short_no_outOfStock)
  ultimately show ?thesis
    using reach by (simp add: reachesOrderInsert_def reachesStockCheck_def)
qed

lemma passes_rows:
  assumes "passesValidation env w ps"
  shows "orderItems oid (Some ps) (items w) =
     map (\<lambda>item. \<lparr>order_id = oid, product_id = ci_id item, quantity = ci_quantity item,
                  price = toFixed2 (ci_price item)\<rparr>) (items w)"
    and "orderItems oid (Some ps) (items w) \<noteq> []"
proof -
  from assms have present: "\<forall>item \<in> set (items w). ci_id item \<in> set (map p_id ps)"
    and cart: "validateCart (items w) = None"
    by (simp_all add: passesValidation_def reachesStockCheck_def)
  show rows: "orderItems oid (Some ps) (items w) =
     map (\<lambda>item. \<lparr>order_id = oid, product_id = ci_id item, quantity = ci_quantity item,
                  price = toFixed2 (ci_price item)\<rparr>) (items w)"
    using present by (rule present_orderItems)
  from cart have "items w \<noteq> []" by (rule validateCart_nonempty)
  then show "orderItems oid (Some ps) (items w) \<noteq> []"
    unfolding rows by simp
qed

lemma successful_submission:
  assumes pass: "passesValidation env w ps"
    and order: "order_reply env = Success (Some oid)" and oid: "oid \<noteq> []"
    and stored: "items_reply env = Success ()"
  shows "handleSubmit jsPlus env w =
           (OrderPlaced oid,
            w\<lparr>orders := orders w @ [newOrder jsPlus w oid],
              order_items := order_items w @ orderItems oid (Some ps) (items w),
              orderId := Some oid, orderConfirmed := True, items := [], loading := False\<rparr>)"
proof -
  let ?w1 = "w\<lparr>orders := orders w @ [newOrder jsPlus w oid]\<rparr>"
  from passes_reaches_insert [OF pass] have cart: "validateCart (items w) = None"
    and form: "validateForm (formData w) = None"
    and reply: "products_reply env = Success (Some ps)"
    and avail: "\<not> productsUnavailable (Some ps) (items w)"
    and stock: "outOfStockItems (Some ps) (items w) = []"
    by (simp_all add: reachesOrderInsert_def)
  have "handleSubmit jsPlus env w = reconcile jsPlus env w"
    using cart form by (rule handleSubmit_reconcile)
  also have "\<dots> = insertOrder jsPlus env w (Some ps)"
    using reply avail stock by (rule reconcile_insertOrder)
  also have "\<dots> = insertItems env ?w1 (Some ps) oid"
    using order oid by (rule insertOrder_insertItems)
  also have "\<dots> = (OrderPlaced oid,
            w\<lparr>orders := orders w @ [newOrder jsPlus w oid],
              order_items := order_items w @ orderItems oid (Some ps) (items w),
              orderId := Some oid, orderConfirmed := True, items := [], loading := False\<rparr>)"
    using passes_rows(2) [OF pass, of oid] stored
    by (simp add: insertItems_def clearCart_def)
  finally show ?thesis .
qed

text \<open>
  C4. When a submission passes every validation step and both inserts succeed, exactly
  one order row is stored, with status \<open>pending\<close> and a total that is the runtime's sum of
  the cart total (price times quantity over the lines) and the delivery charge of the
  chosen location, rounded to two decimals; the cart is then empty and the page state
  holds the new order id with the confirmation set. The page, however, does not show
  the id: with the cart empty the component returns the empty-cart view, which has no
  confirmation dialog.
\<close>

theorem order_placed_with_total:
  assumes pass: "passesValidation env w ps"
    and order: "order_reply env = Success (Some oid)" and oid: "oid \<noteq> []"
    and stored: "items_reply env = Success ()"
    and amount: "amount = jsPlus (\<Sum>item \<leftarrow> items w. ci_price item * of_int (ci_quantity item))
                   (if f_location (formData w) = Inside_dhaka
                    then inside_dhaka (deliveryCharges w) else outside_dhaka (deliveryCharges w))"
  shows "fst (handleSubmit jsPlus env w) = OrderPlaced oid
         \<and> orders (snd (handleSubmit jsPlus env w)) =
             orders w @ [\<lparr>o_id = oid,
                           customer_name = trim (f_name (formData w)),
                           phone = trim (f_phone (formData w)),
                           address = trim (f_address (formData w)),
                           location_type = f_location (formData w),
                           total_amount = toFixed2 amount,
                           status = ''pending''\<rparr>]
         \<and> (\<bar>amount\<bar> < 10 ^ 21 \<longrightarrow>
               (\<exists>n::int. toFixed2 amount = of_int n / 100) \<and> \<bar>toFixed2 amount - amount\<bar> \<le> 1 / 200)
         \<and> items (snd (handleSubmit jsPlus env w)) = []
         \<and> orderId (snd (handleSubmit jsPlus env w)) = Some oid
         \<and> orderConfirmed (snd (handleSubmit jsPlus env w))
         \<and> Cart (snd (handleSubmit jsPlus env w)) = EmptyCart
         \<and> shownOrderId (Cart (snd (handleSubmit jsPlus env w))) = None"
proof -
  have t: "finalTotal jsPlus w = amount"
    by (simp add: amount finalTotal_def totalPrice_def deliveryCharge_def)
  have round: "\<bar>amount\<bar> < 10 ^ 21 \<longrightarrow>
      (\<exists>n::int. toFixed2 amount = of_int n / 100) \<and> \<bar>toFixed2 amount - amount\<bar> \<le> 1 / 200"
    using toFixed2_two_decimals [of amount] by blast
  note placed = successful_submission [OF pass order oid stored, of jsPlus]
  have shown: "Cart (snd (handleSubmit jsPlus env w)) = EmptyCart"
    "shownOrderId (Cart (snd (handleSubmit jsPlus env w))) = None"
    unfolding placed by (simp_all add: Cart_def shownOrderId_def)
  from placed round shown show ?thesis
    by (simp add: newOrder_def t)
qed

theorem order_placed_with_total_witness:
  "fst (handleSubmit exactPlus (sampleReplies [rowC] (Success ())) chargerPage) = OrderPlaced ''o1''
   \<and> orders (snd (handleSubmit exactPlus (sampleReplies [rowC] (Success ())) chargerPage)) =
        [earlierOrder,
         \<lparr>o_id = ''o1'', customer_name = ''Rahim'', phone = ''+880 1711-000000'',
          address = ''Dhaka'', location_type = Outside_dhaka, total_amount = 319 / 2,
          status = ''pending''\<rparr>]
   \<and> items (snd (handleSubmit exactPlus (sampleReplies [rowC] (Success ())) chargerPage)) = []
   \<and> orderId (snd (handleSubmit exactPlus (sampleReplies [rowC] (Success ())) chargerPage))
        = Some ''o1''
   \<and> shownOrderId (Cart (snd (handleSubmit exactPlus (sampleReplies [rowC] (Success ()))
        chargerPage))) = None"
proof -
  let ?env = "sampleReplies [rowC] (Success ())"
  have cart: "validateCart (items chargerPage) = None"
    by (simp add: chargerPage_def validateCart_def lineC_def)
  have form: "validateForm (formData chargerPage) = None"
    by (simp add: chargerPage_def validateForm_def sampleForm_def trim_def isWhiteSpace_def
        phoneRegex_test_def)
  have pass: "passesValidation ?env chargerPage [rowC]"
    using cart form
    by (simp add: passesValidation_def reachesStockCheck_def sampleReplies_def)
      (simp add: chargerPage_def shortLine_def lineC_def rowC_def)
  have order: "order_reply ?env = Success (Some ''o1'')" and oid: "''o1'' \<noteq> []"
    and stored: "items_reply ?env = Success ()"
    by (simp_all add: sampleReplies_def)
  have amount: "(319 / 2 :: rat) =
      exactPlus (\<Sum>item \<leftarrow> items chargerPage. ci_price item * of_int (ci_quantity item))
        (if f_location (formData chargerPage) = Inside_dhaka
         then inside_dhaka (deliveryCharges chargerPage)
         else outside_dhaka (deliveryCharges chargerPage))"
    by (simp add: chargerPage_def sampleForm_def lineC_def exactPlus_def)
  have fixed: "toFixed2 (319 / 2) = 319 / 2"
    using toFixed2_cents [of 15950] by simp
  have form_fields: "trim (f_name (formData chargerPage)) = ''Rahim''"
    "trim (f_phone (formData chargerPage)) = ''+880 1711-000000''"
    "trim (f_address (formData chargerPage)) = ''Dhaka''"
    "f_location (formData chargerPage) = Outside_dhaka"
    "orders chargerPage = [earlierOrder]"
    by (simp_all add: chargerPage_def sampleForm_def trim_def isWhiteSpace_def)
  from order_placed_with_total [where jsPlus = exactPlus, OF pass order oid stored amount]
  show ?thesis
    by (simp add: fixed form_fields shownOrderId_def)
qed

text \<open>
  C5. For a successfully submitted order the stored order items are, line by line, the
  product id and quantity of the cart line with the line's price as it is at submission,
  rounded to two decimals (validated prices are positive).
\<close>

theorem order_items_snapshot:
  assumes pass: "passesValidation env w ps"
    and order: "order_reply env = Success (Some oid)" and oid: "oid \<noteq> []"
    and stored: "items_reply env = Success ()"
  shows "order_items (snd (handleSubmit jsPlus env w)) =
           order_items w @
             map (\<lambda>item. \<lparr>order_id = oid, product_id = ci_id item, quantity = ci_quantity item,
                          price = toFixed2 (ci_price item)\<rparr>) (items w)
         \<and> (\<forall>item \<in> set (items w).
               0 < ci_price item
               \<and> (ci_price item < 10 ^ 21 \<longrightarrow>
                    (\<exists>n::int. toFixed2 (ci_price item) = of_int n / 100)
                    \<and> \<bar>toFixed2 (ci_price item) - ci_price item\<bar> \<le> 1 / 200))"
proof -
  have rows: "order_items (snd (handleSubmit jsPlus env w)) =
           order_items w @
             map (\<lambda>item. \<lparr>order_id = oid, product_id = ci_id item, quantity = ci_quantity item,
                          price = toFixed2 (ci_price item)\<rparr>) (items w)"
    unfolding successful_submission [OF pass order oid stored, of jsPlus] passes_rows(1) [OF pass]
    by simp
  from pass have cart: "validateCart (items w) = None"
    by (simp add: passesValidation_def reachesStockCheck_def)
  have prices: "0 < ci_price item
      \<and> (ci_price item < 10 ^ 21 \<longrightarrow>
            (\<exists>n::int. toFixed2 (ci_price item) = of_int n / 100)
            \<and> \<bar>toFixed2 (ci_price item) - ci_price item\<bar> \<le> 1 / 200)"
    if "item \<in> set (items w)" for item
  proof -
    from cart that have pos: "0 < ci_price item"
      by (auto simp: validateCart_def list_ex_iff split: if_splits)
    then have "ci_price item < 10 ^ 21 \<longrightarrow> \<bar>ci_price item\<bar> < 10 ^ 21" by simp
    with pos toFixed2_two_decimals [of "ci_price item"] show ?thesis by blast
  qed
  from rows prices show ?thesis by blast
qed

theorem order_items_snapshot_witness:
  "order_items (snd (handleSubmit exactPlus (sampleReplies [rowA, rowB] (Success ())) samplePage)) =
     [\<lparr>order_id = ''o1'', product_id = ''A'', quantity = 3, price = 1999 / 100\<rparr>,
      \<lparr>order_id = ''o1'', product_id = ''B'', quantity = 3, price = 5\<rparr>]"
proof -
  let ?env = "sampleReplies [rowA, rowB] (Success ())"
  have pass: "passesValidation ?env samplePage [rowA, rowB]"
    using sample_validateCart sample_validateForm
    by (simp add: passesValidation_def reachesStockCheck_def sampleReplies_def)
      (simp add: samplePage_def shortLine_def lineA_def lineB_def rowA_def rowB_def)
  have order: "order_reply ?env = Success (Some ''o1'')" and oid: "''o1'' \<noteq> []"
    and stored: "items_reply ?env = Success ()"
    by (simp_all add: sampleReplies_def)
  have rows: "order_items samplePage @
      map (\<lambda>item. \<lparr>order_id = ''o1'', product_id = ci_id item, quantity = ci_quantity item,
                   price = toFixed2 (ci_price item)\<rparr>) (items samplePage)
      = [\<lparr>order_id = ''o1'', product_id = ''A'', quantity = 3, price = 1999 / 100\<rparr>,
         \<lparr>order_id = ''o1'', product_id = ''B'', quantity = 3, price = 5\<rparr>]"
    using toFixed2_cents [of 1999] toFixed2_cents [of 500]
    by (simp add: samplePage_def lineA_def lineB_def)
  from order_items_snapshot [OF pass order oid stored] show ?thesis
    by (simp only: rows)
qed


lemma validateForm_outcome: "validateForm fd = Some r \<Longrightarrow> r \<noteq> OrderFailed t"
  by (auto simp: validateForm_def split: if_splits)

lemma insertItems_outcome:
  assumes "orderItems oid existingProducts (items w) \<noteq> []"
  shows "fst (insertItems env w existingProducts oid) \<noteq> OrderFailed NoValidItems"
  using assms by (cases "items_reply env") (simp_all add: insertItems_def)

lemma insertOrder_outcome:
  assumes "\<And>oid. orderItems oid existingProducts (items w) \<noteq> []"
  shows "fst (insertOrder jsPlus env w existingProducts) \<noteq> OrderFailed NoValidItems"
proof (cases "order_reply env")
  case (Failure msg)
  then show ?thesis by (simp add: insertOrder_def)
next
  case (Success orderData)
  show ?thesis
  proof (cases orderData)
    case None
    with Success show ?thesis by (simp add: insertOrder_def)
  next
    case (Some oid)
    let ?w1 = "w\<lparr>orders := orders w @ [newOrder jsPlus w oid]\<rparr>"
    have "orderItems oid existingProducts (items ?w1) \<noteq> []"
      using assms [of oid] by simp
    then have "fst (insertItems env ?w1 existingProducts oid) \<noteq> OrderFailed NoValidItems"
      by (rule insertItems_outcome)
    with Success Some show ?thesis by (simp add: insertOrder_def)
  qed
qed

text \<open>
  C10. When the cart is not empty, the fetched rows answer the product query, and the
  submission is not rejected for unavailable products, every cart product id has a
  fetched row; so the order-items list has one entry per cart line, is not empty, and
  the submission never ends in the "no valid items" failure.
\<close>

theorem no_valid_items_unreachable:
  assumes cart: "validateCart (items w) = None"
    and reply: "products_reply env = Success existingProducts"
    and query: "replyAnswersQuery existingProducts (items w)"
    and avail: "\<not> productsUnavailable existingProducts (items w)"
  shows "(\<exists>ps. existingProducts = Some ps
              \<and> (\<forall>item \<in> set (items w). ci_id item \<in> set (map p_id ps)))
         \<and> length (orderItems oid existingProducts (items w)) = length (items w)
         \<and> orderItems oid existingProducts (items w) \<noteq> []
         \<and> fst (handleSubmit jsPlus env w) \<noteq> OrderFailed NoValidItems"
proof -
  from cart have ne: "items w \<noteq> []" by (rule validateCart_nonempty)
  have "existingProducts \<noteq> None"
  proof
    assume "existingProducts = None"
    with ne have "productsUnavailable existingProducts (items w)"
      by (simp add: productsUnavailable_def missingItems_def)
    with avail show False by contradiction
  qed
  then obtain ps where ps: "existingProducts = Some ps" by blast
  from query ps have "answersQuery ps (items w)"
    by (simp add: replyAnswersQuery_def)
  with avail ps have present: "\<forall>item \<in> set (items w). ci_id item \<in> set (map p_id ps)"
    using answers_all_present by blast
  have rows: "orderItems k existingProducts (items w) =
      map (\<lambda>item. \<lparr>order_id = k, product_id = ci_id item, quantity = ci_quantity item,
                   price = toFixed2 (ci_price item)\<rparr>) (items w)" for k
    unfolding ps using present by (rule present_orderItems)
  have len: "length (orderItems oid existingProducts (items w)) = length (items w)"
    by (simp add: rows)
  have some: "orderItems k existingProducts (items w) \<noteq> []" for k
    using ne by (simp add: rows)
  have out: "fst (handleSubmit jsPlus env w) \<noteq> OrderFailed NoValidItems"
  proof (cases "validateForm (formData w)")
    case (Some r)
    then have "r \<noteq> OrderFailed NoValidItems" by (rule validateForm_outcome)
    with cart Some show ?thesis by (simp add: handleSubmit_def)
  next
    case None
    have h: "handleSubmit jsPlus env w = reconcile jsPlus env w"
      using cart None by (rule handleSubmit_reconcile)
    show ?thesis
    proof (cases "outOfStockItems existingProducts (items w) = []")
      case True
      have "reconcile jsPlus env w = insertOrder jsPlus env w existingProducts"
        using reply avail True by (rule reconcile_insertOrder)
      with insertOrder_outcome [of existingProducts w jsPlus env, OF some] h show ?thesis
        by simp
    next
      case False
      with reply avail h show ?thesis by (simp add: reconcile_def)
    qed
  qed
  from ps present len some [of oid] out show ?thesis by blast
qed

theorem no_valid_items_unreachable_witness:
  "length (orderItems ''o1'' (Some [rowA, rowB]) (items samplePage)) = 2
   \<and> fst (handleSubmit exactPlus (sampleReplies [rowA, rowB] (Success ())) samplePage)
       \<noteq> OrderFailed NoValidItems"
proof -
  let ?env = "sampleReplies [rowA, rowB] (Success ())"
  have reply: "products_reply ?env = Success (Some [rowA, rowB])"
    by (simp add: sampleReplies_def)
  have query: "replyAnswersQuery (Some [rowA, rowB]) (items samplePage)"
    by (simp add: replyAnswersQuery_def answersQuery_def samplePage_def
        lineA_def lineB_def rowA_def rowB_def)
  have avail: "\<not> productsUnavailable (Some [rowA, rowB]) (items samplePage)"
    by (simp add: productsUnavailable_def samplePage_def)
  have two: "length (items samplePage) = 2"
    by (simp add: samplePage_def)
  from no_valid_items_unreachable [OF sample_validateCart reply query avail, of "''o1''"]
  show ?thesis
    by (simp only: two) simp
qed

end
